theory Spec2Isabelle
  imports Main
begin

section \<open>Configuration types\<close>

text \<open>
  The TypeScript interfaces of \<^verbatim>\<open>config-types\<close>, as records. Only the fields on the
  path from the document root to the two merge targets are kept, together with the
  \<^verbatim>\<open>name\<close> of each level; every other field (addresses, HTTP filters, time-outs, ...)
  is carried along unchanged by the code and is left out.

  The documents come from YAML files through unchecked casts, so a key can be missing at
  run time whatever its declared type. Every field the compiler reads on its way to the
  cluster list and to the route list is therefore an \<open>option\<close>, \<open>None\<close> for
  \<^verbatim>\<open>undefined\<close>: \<^verbatim>\<open>static_resources\<close>, \<^verbatim>\<open>listeners\<close>, \<^verbatim>\<open>clusters\<close>,
  \<^verbatim>\<open>filter_chains\<close>, \<^verbatim>\<open>filters\<close>, \<^verbatim>\<open>typed_config\<close>, \<^verbatim>\<open>route_config\<close>,
  \<^verbatim>\<open>virtual_hosts\<close>, the \<^verbatim>\<open>routes\<close> of a virtual host, and the two fields of a service
  configuration. Where the source tests the presence of a field, a missing one is a
  branch of the test; where it does not (\<^verbatim>\<open>static_resources\<close>, \<^verbatim>\<open>listeners\<close>, both
  \<^verbatim>\<open>clusters\<close>, the \<^verbatim>\<open>routes\<close> of the virtual host), reading a property or calling a
  method of \<^verbatim>\<open>undefined\<close> throws a \<^verbatim>\<open>TypeError\<close>. The \<^verbatim>\<open>routes\<close> of a service
  configuration are only handed to \<^verbatim>\<open>Array.prototype.concat\<close>, which appends a
  non-array argument as one element: a missing one puts \<^verbatim>\<open>undefined\<close> into the route
  list, whose slots are options for that reason.

  A key that is present holds a value of its declared type: an array holds objects. The
  \<^verbatim>\<open>name\<close> of a cluster is a string; the code only compares names with \<^verbatim>\<open>===\<close>, and a
  missing name would be one more name. The \<^verbatim>\<open>type\<close> of a cluster is optional, as in the
  YAML examples that give a cluster a name only.
\<close>

datatype error = TypeError | Error string

record Route =
  match_prefix :: string
  route_cluster :: "string option"

record Cluster =
  name :: string
  type :: "string option"

record VirtualHost =
  vh_name :: string
  domains :: "string list"
  routes :: "Route option list option"

record RouteConfig =
  rc_name :: string
  virtual_hosts :: "VirtualHost list option"

record TypedConfig =
  stat_prefix :: "string option"
  route_config :: "RouteConfig option"

record Filter =
  filter_name :: string
  typed_config :: "TypedConfig option"

record FilterChain =
  filters :: "Filter list option"

record Listener =
  listener_name :: string
  filter_chains :: "FilterChain list option"

record StaticResources =
  listeners :: "Listener list option"
  clusters :: "Cluster list option"

record EnvoyConfig =
  static_resources :: "StaticResources option"

record ServiceConfg =
  sc_clusters :: "Cluster list option"
  sc_routes :: "Route list option"

text \<open>The object literal \<^verbatim>\<open>{ clusters: cs, routes: rs }\<close> with both arrays present.\<close>

definition service :: "Cluster list \<Rightarrow> Route list \<Rightarrow> ServiceConfg" where
  "service cs rs = \<lparr>sc_clusters = Some cs, sc_routes = Some rs\<rparr>"

section \<open>The compiler\<close>

record Compiler =
  serviceConfigs :: "ServiceConfg list"
  store :: "EnvoyConfig option"

text \<open>The constructor: \<^verbatim>\<open>this.store = configBase; this.serviceConfigs = serviceConfigs\<close>.\<close>

definition new_Compiler :: "EnvoyConfig \<Rightarrow> ServiceConfg list \<Rightarrow> Compiler" where
  "new_Compiler configBase scs = \<lparr>serviceConfigs = scs, store = Some configBase\<rparr>"

text \<open>
  \<^verbatim>\<open>Array.prototype.findIndex\<close>: the index of the first element that satisfies the
  predicate, \<open>-1\<close> when there is none.
\<close>

fun findIndex :: "('a \<Rightarrow> bool) \<Rightarrow> 'a list \<Rightarrow> int" where
  "findIndex P [] = - 1"
| "findIndex P (x # xs) =
     (if P x then 0
      else (let i = findIndex P xs in if i = - 1 then - 1 else i + 1))"

text \<open>
  \<^verbatim>\<open>routes.concat(routesToAdd)\<close>: an array argument is spread, \<^verbatim>\<open>undefined\<close> is
  appended as a single element.
\<close>

definition concat_routes :: "Route option list \<Rightarrow> Route list option \<Rightarrow> Route option list" where
  "concat_routes rs routesToAdd =
     (case routesToAdd of None \<Rightarrow> rs @ [None] | Some new \<Rightarrow> rs @ map Some new)"

text \<open>
  \<^verbatim>\<open>addRoute\<close>: the chain of presence and length tests, in the order of the source, then
  the assignment to the route list of the first virtual host. The chain reads
  \<^verbatim>\<open>this.store.static_resources.listeners.length\<close> without testing
  \<^verbatim>\<open>static_resources\<close> or \<^verbatim>\<open>listeners\<close>, and the assignment calls
  \<^verbatim>\<open>virtual_hosts[0].routes.concat\<close> without testing \<^verbatim>\<open>routes\<close>: these three reads
  throw when the field is missing.
\<close>

definition addRoute :: "Route list option \<Rightarrow> Compiler \<Rightarrow> error + Compiler" where
  "addRoute routesToAdd c =
     (case store c of
        None \<Rightarrow> Inr c
      | Some cfg \<Rightarrow>
     (case static_resources cfg of
        None \<Rightarrow> Inl TypeError
      | Some sr \<Rightarrow>
     (case listeners sr of
        None \<Rightarrow> Inl TypeError
      | Some [] \<Rightarrow> Inr c
      | Some (l # ls) \<Rightarrow>
     (case filter_chains l of
        None \<Rightarrow> Inr c
      | Some [] \<Rightarrow> Inr c
      | Some (fc # fcs) \<Rightarrow>
     (case filters fc of
        None \<Rightarrow> Inr c
      | Some [] \<Rightarrow> Inr c
      | Some (f # fs) \<Rightarrow>
     (case typed_config f of
        None \<Rightarrow> Inr c
      | Some tc \<Rightarrow>
     (case route_config tc of
        None \<Rightarrow> Inr c
      | Some rc \<Rightarrow>
     (case virtual_hosts rc of
        None \<Rightarrow> Inr c
      | Some [] \<Rightarrow> Inr c
      | Some (vh # vhs) \<Rightarrow>
     (case routes vh of
        None \<Rightarrow> Inl TypeError
      | Some rs \<Rightarrow>
          Inr (c\<lparr>store := Some (cfg\<lparr>static_resources := Some (sr
            \<lparr>listeners := Some (l\<lparr>filter_chains := Some (fc\<lparr>filters := Some (f
              \<lparr>typed_config := Some (tc\<lparr>route_config := Some (rc
                \<lparr>virtual_hosts := Some (vh\<lparr>routes := Some (concat_routes rs routesToAdd)\<rparr>
                   # vhs)\<rparr>)\<rparr>)\<rparr> # fs)\<rparr> # fcs)\<rparr> # ls)\<rparr>)\<rparr>)\<rparr>))))))))))"

text \<open>
  The body of the cluster loop of \<^verbatim>\<open>mergeConfig\<close> on the cluster array: replace at the
  index \<^verbatim>\<open>findIndex\<close> returns, or \<^verbatim>\<open>push\<close> when it returns \<open>-1\<close>.
\<close>

definition mergeCluster :: "Cluster list \<Rightarrow> Cluster \<Rightarrow> Cluster list" where
  "mergeCluster cs newCluster =
     (let hasCluster = findIndex (\<lambda>cluster. name newCluster = name cluster) cs in
      if hasCluster = - 1 then cs @ [newCluster]
      else cs[nat hasCluster := newCluster])"

text \<open>The loop \<^verbatim>\<open>for (const newCluster of service.clusters)\<close> on the cluster array.\<close>

fun mergeClusters :: "Cluster list \<Rightarrow> Cluster list \<Rightarrow> Cluster list" where
  "mergeClusters cs [] = cs"
| "mergeClusters cs (newCluster # rest) = mergeClusters (mergeCluster cs newCluster) rest"

text \<open>
  The same loop on the document. Each iteration reads
  \<^verbatim>\<open>this.store.static_resources.clusters\<close>: with no new cluster nothing is read and the
  document stays as it is; otherwise the first iteration throws when
  \<^verbatim>\<open>static_resources\<close> or \<^verbatim>\<open>clusters\<close> is missing, and an array that is there is
  updated in place by every iteration.
\<close>

definition mergeClusters_store :: "EnvoyConfig \<Rightarrow> Cluster list \<Rightarrow> error + EnvoyConfig" where
  "mergeClusters_store cfg newClusters =
     (case newClusters of
        [] \<Rightarrow> Inr cfg
      | newCluster # rest \<Rightarrow>
         (case static_resources cfg of
            None \<Rightarrow> Inl TypeError
          | Some sr \<Rightarrow>
             (case clusters sr of
                None \<Rightarrow> Inl TypeError
              | Some cs \<Rightarrow>
                  Inr (cfg\<lparr>static_resources :=
                    Some (sr\<lparr>clusters := Some (mergeClusters cs (newCluster # rest))\<rparr>)\<rparr>))))"

text \<open>
  \<^verbatim>\<open>mergeConfig\<close>: nothing happens on a null store; iterating a missing
  \<^verbatim>\<open>service.clusters\<close> throws; the routes go to \<^verbatim>\<open>addRoute\<close> as they are.
\<close>

definition mergeConfig :: "ServiceConfg \<Rightarrow> Compiler \<Rightarrow> error + Compiler" where
  "mergeConfig svc c =
     (case store c of
        None \<Rightarrow> Inr c
      | Some cfg \<Rightarrow>
         (case sc_clusters svc of
            None \<Rightarrow> Inl TypeError
          | Some newClusters \<Rightarrow>
             (case mergeClusters_store cfg newClusters of
                Inl e \<Rightarrow> Inl e
              | Inr cfg' \<Rightarrow> addRoute (sc_routes svc) (c\<lparr>store := Some cfg'\<rparr>))))"

text \<open>
  \<^verbatim>\<open>build\<close>: the loop over \<^verbatim>\<open>this.serviceConfigs\<close>, which returns as soon as the store
  is null; an exception of \<^verbatim>\<open>mergeConfig\<close> leaves the loop.
\<close>

fun build_loop :: "ServiceConfg list \<Rightarrow> Compiler \<Rightarrow> error + Compiler" where
  "build_loop [] c = Inr c"
| "build_loop (s # ss) c =
     (if store c = None then Inr c
      else (case mergeConfig s c of Inl e \<Rightarrow> Inl e | Inr c' \<Rightarrow> build_loop ss c'))"

definition build :: "Compiler \<Rightarrow> error + Compiler" where
  "build c = build_loop (serviceConfigs c) c"

definition getStore :: "Compiler \<Rightarrow> EnvoyConfig option" where
  "getStore c = store c"

section \<open>Observations and example documents\<close>

text \<open>
  The first virtual host of the first filter of the first filter chain of the first
  listener, when every level of that path is present and non-empty: the tests of
  \<^verbatim>\<open>addRoute\<close>, with \<open>None\<close> where \<^verbatim>\<open>addRoute\<close> does nothing or throws before it reaches
  the virtual host.
\<close>

definition first_virtual_host :: "EnvoyConfig \<Rightarrow> VirtualHost option" where
  "first_virtual_host cfg =
     (case static_resources cfg of
        None \<Rightarrow> None
      | Some sr \<Rightarrow>
     (case listeners sr of
        None \<Rightarrow> None
      | Some [] \<Rightarrow> None
      | Some (l # ls) \<Rightarrow>
     (case filter_chains l of
        None \<Rightarrow> None
      | Some [] \<Rightarrow> None
      | Some (fc # fcs) \<Rightarrow>
     (case filters fc of
        None \<Rightarrow> None
      | Some [] \<Rightarrow> None
      | Some (f # fs) \<Rightarrow>
     (case typed_config f of
        None \<Rightarrow> None
      | Some tc \<Rightarrow>
     (case route_config tc of
        None \<Rightarrow> None
      | Some rc \<Rightarrow>
     (case virtual_hosts rc of
        None \<Rightarrow> None
      | Some [] \<Rightarrow> None
      | Some (vh # vhs) \<Rightarrow> Some vh)))))))"

text \<open>
  The route list of that virtual host: the path resolves and the virtual host has its
  \<^verbatim>\<open>routes\<close>.
\<close>

definition target_routes :: "EnvoyConfig \<Rightarrow> Route option list option" where
  "target_routes cfg =
     (case first_virtual_host cfg of None \<Rightarrow> None | Some vh \<Rightarrow> routes vh)"

text \<open>The cluster list of a document, when \<^verbatim>\<open>static_resources\<close> and \<^verbatim>\<open>clusters\<close> are there.\<close>

definition doc_clusters :: "EnvoyConfig \<Rightarrow> Cluster list option" where
  "doc_clusters cfg =
     (case static_resources cfg of None \<Rightarrow> None | Some sr \<Rightarrow> clusters sr)"

text \<open>
  The documents on which the three unguarded reads of \<^verbatim>\<open>addRoute\<close> find their field:
  \<^verbatim>\<open>static_resources\<close> and \<^verbatim>\<open>listeners\<close> are present, and the first virtual host, when
  the path resolves, has its \<^verbatim>\<open>routes\<close>.
\<close>

definition route_merge_defined :: "EnvoyConfig \<Rightarrow> bool" where
  "route_merge_defined cfg =
     (case static_resources cfg of
        None \<Rightarrow> False
      | Some sr \<Rightarrow>
         (case listeners sr of
            None \<Rightarrow> False
          | Some ls \<Rightarrow>
             (case first_virtual_host cfg of
                None \<Rightarrow> True
              | Some vh \<Rightarrow> routes vh \<noteq> None)))"

text \<open>What a run of \<^verbatim>\<open>build\<close> leaves in the store, when it returns.\<close>

definition final_clusters :: "error + Compiler \<Rightarrow> Cluster list option" where
  "final_clusters r =
     (case r of Inl e \<Rightarrow> None
      | Inr c \<Rightarrow> (case store c of None \<Rightarrow> None | Some cfg \<Rightarrow> doc_clusters cfg))"

definition final_routes :: "error + Compiler \<Rightarrow> Route option list option" where
  "final_routes r =
     (case r of Inl e \<Rightarrow> None
      | Inr c \<Rightarrow> (case store c of None \<Rightarrow> None | Some cfg \<Rightarrow> target_routes cfg))"

text \<open>
  Example documents. \<open>base_with\<close> is a base document with the given listeners and
  clusters; \<open>listener_1\<close> is the listener of the mock base configuration of the
  compiler's tests, with the given routes in its only virtual host;
  \<open>mockBaseConfig\<close> and \<open>mockServiceConfigs\<close> are the fixtures of those tests;
  \<open>scenario_base\<close>, \<open>fragment1\<close> and \<open>fragment2\<close> are the example scenario of the
  specification, whose clusters and routes have a name or a prefix only.
\<close>

definition base_with :: "Listener list option \<Rightarrow> Cluster list \<Rightarrow> EnvoyConfig" where
  "base_with ls cs = \<lparr>static_resources = Some \<lparr>listeners = ls, clusters = Some cs\<rparr>\<rparr>"

definition listener_1 :: "Route option list \<Rightarrow> Listener" where
  "listener_1 rs =
     \<lparr>listener_name = ''listener_1'',
      filter_chains = Some [\<lparr>filters = Some
        [\<lparr>filter_name = ''envoy.filters.network.http_connection_manager'',
          typed_config = Some \<lparr>stat_prefix = None,
            route_config = Some \<lparr>rc_name = ''local_route'',
              virtual_hosts =
                Some [\<lparr>vh_name = ''vh1'', domains = [''*''], routes = Some rs\<rparr>]\<rparr>\<rparr>\<rparr>]\<rparr>]\<rparr>"

definition health :: Route where
  "health = \<lparr>match_prefix = ''/health'', route_cluster = Some ''health_cluster''\<rparr>"

definition mockBaseConfig :: EnvoyConfig where
  "mockBaseConfig =
     base_with (Some [listener_1 [Some health]])
       [\<lparr>name = ''existing_cluster'', type = Some ''LOGICAL_DNS''\<rparr>]"

definition mockServiceConfigs :: "ServiceConfg list" where
  "mockServiceConfigs =
     [service [\<lparr>name = ''service1_cluster'', type = Some ''test_type_original_1''\<rparr>]
        [\<lparr>match_prefix = ''/api/v1'', route_cluster = Some ''service1_cluster''\<rparr>],
      service [\<lparr>name = ''service2_cluster'', type = Some ''test_type_original_2''\<rparr>]
        [\<lparr>match_prefix = ''/api/v2'', route_cluster = Some ''service2_cluster''\<rparr>]]"

definition scenario_base :: EnvoyConfig where
  "scenario_base =
     base_with (Some [listener_1 [Some \<lparr>match_prefix = ''/health'', route_cluster = None\<rparr>]])
       [\<lparr>name = ''existing_cluster'', type = None\<rparr>]"

definition fragment1 :: ServiceConfg where
  "fragment1 = service [\<lparr>name = ''svc1'', type = None\<rparr>]
                 [\<lparr>match_prefix = ''/v1'', route_cluster = None\<rparr>]"

definition fragment2 :: ServiceConfg where
  "fragment2 = service [\<lparr>name = ''existing_cluster'', type = Some ''new''\<rparr>]
                 [\<lparr>match_prefix = ''/v2'', route_cluster = None\<rparr>]"

section \<open>The platform\<close>

text \<open>
  Discovery reads the file system and parses YAML through Node's \<^verbatim>\<open>fs\<close> and
  \<^verbatim>\<open>path\<close> modules and the \<^verbatim>\<open>js-yaml\<close> library. They are parameters of the model:
  a \<open>Platform\<close> gives the result of each call, \<open>None\<close> where the call throws. The
  unchecked casts of the source (\<^verbatim>\<open>as Route[]\<close>, \<^verbatim>\<open>as Cluster[]\<close>,
  \<^verbatim>\<open>as EnvoyConfig\<close>) are parameters too: they say which typed record a parsed tree
  is read as.
\<close>

text \<open>
  What \<^verbatim>\<open>yaml.load\<close> returns: a generic tree. \<open>YNull\<close> stands for both \<^verbatim>\<open>null\<close> and
  \<^verbatim>\<open>undefined\<close> (an empty document); numbers are integers, which is all the code can
  tell of a number (its truthiness).
\<close>

datatype yaml =
    YNull
  | YBool bool
  | YNum int
  | YStr string
  | YSeq "yaml list"
  | YMap "(string \<times> yaml) list"

record Stats =
  isFile :: bool
  isDirectory :: bool

record Platform =
  readdirSync :: "string \<Rightarrow> string list option"
  lstatSync :: "string \<Rightarrow> Stats option"
  readFileSync :: "string \<Rightarrow> string option"
  load :: "string \<Rightarrow> yaml option"
  join :: "string \<Rightarrow> string \<Rightarrow> string"
  asRoute :: "yaml \<Rightarrow> Route"
  asCluster :: "yaml \<Rightarrow> Cluster"
  asEnvoyConfig :: "yaml \<Rightarrow> EnvoyConfig"

text \<open>JavaScript truthiness, as \<^verbatim>\<open>if (routeFile)\<close> and \<^verbatim>\<open>if (!baseConfig)\<close> test it.\<close>

fun truthy :: "yaml \<Rightarrow> bool" where
  "truthy YNull = False"
| "truthy (YBool b) = b"
| "truthy (YNum n) = (n \<noteq> 0)"
| "truthy (YStr s) = (s \<noteq> [])"
| "truthy (YSeq xs) = True"
| "truthy (YMap kvs) = True"

text \<open>
  Property access \<^verbatim>\<open>value.key\<close> for the keys the code reads (\<^verbatim>\<open>routes\<close>,
  \<^verbatim>\<open>clusters\<close>): only a mapping has them; \<open>None\<close> is \<^verbatim>\<open>undefined\<close>.
\<close>

fun get_field :: "yaml \<Rightarrow> string \<Rightarrow> yaml option" where
  "get_field (YMap kvs) k = map_of kvs k"
| "get_field y k = None"

text \<open>\<^verbatim>\<open>String.prototype.includes\<close>: the argument occurs somewhere in the string.\<close>

fun str_includes :: "string \<Rightarrow> string \<Rightarrow> bool" where
  "str_includes [] sub = (sub = [])"
| "str_includes (c # cs) sub = (take (length sub) (c # cs) = sub \<or> str_includes cs sub)"

section \<open>FsTools and YamlTools\<close>

record DirContents =
  folders :: "string list"
  files :: "string list"

text \<open>
  \<^verbatim>\<open>FsTools.listDirContents\<close>: \<^verbatim>\<open>readdirSync\<close>, then one \<^verbatim>\<open>lstatSync\<close> per entry,
  in listing order; an entry that is neither a file nor a directory is dropped. Any
  exception makes the result \<^verbatim>\<open>null\<close>.
\<close>

fun sortContents :: "Platform \<Rightarrow> string \<Rightarrow> string list \<Rightarrow> DirContents \<Rightarrow> DirContents option" where
  "sortContents p dirPath [] sortedContents = Some sortedContents"
| "sortContents p dirPath (item # rest) sortedContents =
     (case lstatSync p (join p dirPath item) of
        None \<Rightarrow> None
      | Some stats \<Rightarrow>
          sortContents p dirPath rest
            (if isFile stats then sortedContents\<lparr>files := files sortedContents @ [item]\<rparr>
             else if isDirectory stats then sortedContents\<lparr>folders := folders sortedContents @ [item]\<rparr>
             else sortedContents))"

definition listDirContents :: "Platform \<Rightarrow> string \<Rightarrow> DirContents option" where
  "listDirContents p dirPath =
     (case readdirSync p dirPath of
        None \<Rightarrow> None
      | Some contents \<Rightarrow> sortContents p dirPath contents \<lparr>folders = [], files = []\<rparr>)"

text \<open>
  \<^verbatim>\<open>YamlTools.read_yaml\<close>: the parsed document, \<^verbatim>\<open>null\<close> when reading or parsing
  throws.
\<close>

definition read_yaml :: "Platform \<Rightarrow> string \<Rightarrow> yaml" where
  "read_yaml p filePath =
     (case readFileSync p filePath of
        None \<Rightarrow> YNull
      | Some fileContents \<Rightarrow>
          (case load p fileContents of None \<Rightarrow> YNull | Some config \<Rightarrow> config))"

section \<open>ConfigDiscover\<close>

record ConfigDiscover =
  folderPaths :: "string list"
  baseConfigPath :: string
  configFolderName :: string

definition new_ConfigDiscover :: "string list \<Rightarrow> string \<Rightarrow> string \<Rightarrow> ConfigDiscover" where
  "new_ConfigDiscover fps b n = \<lparr>folderPaths = fps, baseConfigPath = b, configFolderName = n\<rparr>"

text \<open>
  \<^verbatim>\<open>readRouteYaml\<close>: the \<^verbatim>\<open>routes\<close> array of a truthy document, cast; the empty list
  otherwise.
\<close>

definition readRouteYaml :: "Platform \<Rightarrow> string \<Rightarrow> Route list" where
  "readRouteYaml p filePath =
     (let routeFile = read_yaml p filePath in
      if truthy routeFile then
        (case get_field routeFile ''routes'' of
           Some (YSeq rs) \<Rightarrow> map (asRoute p) rs
         | _ \<Rightarrow> [])
      else [])"

text \<open>
  \<^verbatim>\<open>getRoutes\<close>: the loop over \<^verbatim>\<open>contents.files\<close>, which reads a file when its name
  includes \<^verbatim>\<open>.yaml\<close> and pushes its routes.
\<close>

fun getRoutes_loop :: "Platform \<Rightarrow> string \<Rightarrow> string list \<Rightarrow> Route list \<Rightarrow> Route list" where
  "getRoutes_loop p folderPath [] newRoutes = newRoutes"
| "getRoutes_loop p folderPath (f # fs) newRoutes =
     getRoutes_loop p folderPath fs
       (if str_includes f ''.yaml'' then newRoutes @ readRouteYaml p (join p folderPath f)
        else newRoutes)"

definition getRoutes :: "Platform \<Rightarrow> string \<Rightarrow> Route list" where
  "getRoutes p folderPath =
     (case listDirContents p folderPath of
        None \<Rightarrow> []
      | Some contents \<Rightarrow> getRoutes_loop p folderPath (files contents) [])"

definition readClusterYaml :: "Platform \<Rightarrow> string \<Rightarrow> Cluster list" where
  "readClusterYaml p filePath =
     (let clusterFile = read_yaml p filePath in
      if truthy clusterFile then
        (case get_field clusterFile ''clusters'' of
           Some (YSeq cs) \<Rightarrow> map (asCluster p) cs
         | _ \<Rightarrow> [])
      else [])"

fun getClusters_loop :: "Platform \<Rightarrow> string \<Rightarrow> string list \<Rightarrow> Cluster list \<Rightarrow> Cluster list" where
  "getClusters_loop p folderPath [] newCluster = newCluster"
| "getClusters_loop p folderPath (f # fs) newCluster =
     getClusters_loop p folderPath fs
       (if str_includes f ''.yaml'' then newCluster @ readClusterYaml p (join p folderPath f)
        else newCluster)"

definition getClusters :: "Platform \<Rightarrow> string \<Rightarrow> Cluster list" where
  "getClusters p folderPath =
     (case listDirContents p folderPath of
        None \<Rightarrow> []
      | Some contents \<Rightarrow> getClusters_loop p folderPath (files contents) [])"

text \<open>
  \<^verbatim>\<open>findServiceConfigs\<close>: \<^verbatim>\<open>if (configFolder)\<close> tests a string, which is falsy when
  empty.
\<close>

definition findServiceConfigs :: "Platform \<Rightarrow> ConfigDiscover \<Rightarrow> string \<Rightarrow> ServiceConfg option" where
  "findServiceConfigs p d folderPath =
     (case listDirContents p folderPath of
        None \<Rightarrow> None
      | Some contents \<Rightarrow>
          (case find (\<lambda>f. f = configFolderName d) (folders contents) of
             None \<Rightarrow> None
           | Some configFolder \<Rightarrow>
               if configFolder = [] then None
               else
                 (let configPath = join p folderPath configFolder;
                      rs = [] @ getRoutes p (join p configPath ''routes'');
                      cs = [] @ getClusters p (join p configPath ''clusters'')
                  in if length rs > 0 \<or> length cs > 0 then Some (service cs rs) else None)))"

fun collect_loop :: "Platform \<Rightarrow> ConfigDiscover \<Rightarrow> string list \<Rightarrow> ServiceConfg list \<Rightarrow> ServiceConfg list" where
  "collect_loop p d [] services = services"
| "collect_loop p d (fp # fps) services =
     collect_loop p d fps
       (case findServiceConfigs p d fp of
          None \<Rightarrow> services
        | Some s \<Rightarrow> services @ [s])"

definition collect :: "Platform \<Rightarrow> ConfigDiscover \<Rightarrow> ServiceConfg list" where
  "collect p d = collect_loop p d (folderPaths d) []"

text \<open>\<^verbatim>\<open>collectBase\<close> throws a plain \<^verbatim>\<open>Error\<close> when the parsed base document is falsy.\<close>

definition collectBase :: "Platform \<Rightarrow> ConfigDiscover \<Rightarrow> error + EnvoyConfig" where
  "collectBase p d =
     (let baseConfig = read_yaml p (baseConfigPath d) in
      if \<not> truthy baseConfig
      then Inl (Error (''base envoy config not found at '' @ baseConfigPath d))
      else Inr (asEnvoyConfig p baseConfig))"

section \<open>The plugin\<close>

text \<open>
  \<^verbatim>\<open>EnvoyProxyPlugin.execute\<close>. A value of the request's options is a string, an array
  of strings or something else. The field \<^verbatim>\<open>action\<close> of the options is a constant and
  is left out; \<^verbatim>\<open>output\<close> is written \<open>output_file\<close>.
\<close>

datatype OptionValue = StringValue string | ArrayValue "string list" | OtherValue

record Options =
  items :: "string list"
  rootPath :: string
  output_file :: string
  base :: string
  folderName :: string

record ExecutionRequestBody =
  options :: "(string \<times> OptionValue) list option"

definition set_option :: "string \<Rightarrow> OptionValue \<Rightarrow> Options \<Rightarrow> Options" where
  "set_option key v opts =
     (let opts1 =
        (case v of
           StringValue s \<Rightarrow>
             (let o1 = (if key = ''root-path'' then opts\<lparr>rootPath := s\<rparr> else opts);
                  o2 = (if key = ''base'' then o1\<lparr>base := s\<rparr> else o1);
                  o3 = (if key = ''output'' then o2\<lparr>output_file := s\<rparr> else o2)
              in (if key = ''folder-name'' then o3\<lparr>folderName := s\<rparr> else o3))
         | _ \<Rightarrow> opts)
      in (case v of
            ArrayValue xs \<Rightarrow> (if key = ''items'' then opts1\<lparr>items := xs\<rparr> else opts1)
          | _ \<Rightarrow> opts1))"

fun parse_options :: "(string \<times> OptionValue) list \<Rightarrow> Options \<Rightarrow> Options" where
  "parse_options [] opts = opts"
| "parse_options ((key, v) # rest) opts = parse_options rest (set_option key v opts)"

definition default_options :: Options where
  "default_options =
     \<lparr>items = [], rootPath = '''', output_file = '''', base = '''', folderName = ''envoy''\<rparr>"

definition request_options :: "ExecutionRequestBody \<Rightarrow> Options" where
  "request_options request =
     parse_options (case options request of None \<Rightarrow> [] | Some kvs \<Rightarrow> kvs) default_options"

text \<open>
  The effects of \<^verbatim>\<open>execute\<close> are the calls it makes to its collaborators, in order:
  the model returns them next to the response. \<open>Result cfg\<close> stands for the response
  whose result is \<^verbatim>\<open>JSON.stringify(cfg)\<close>, \<open>ErrorResult e\<close> for the response whose result
  is \<^verbatim>\<open>"Error: "\<close> followed by the message of \<open>e\<close>.
\<close>

datatype call =
    CollectCall "ServiceConfg list"
  | CollectBaseCall
  | BuildCall
  | WriteYamlCall EnvoyConfig string

datatype ExecutionResponse = Result EnvoyConfig | ErrorResult error

definition execute :: "Platform \<Rightarrow> ExecutionRequestBody \<Rightarrow> ExecutionResponse \<times> call list" where
  "execute p request =
     (let opts = request_options request;
          discovery = new_ConfigDiscover (items opts) (base opts) (folderName opts);
          services = collect p discovery
      in case collectBase p discovery of
           Inl e \<Rightarrow> (ErrorResult e, [CollectCall services, CollectBaseCall])
         | Inr baseConfig \<Rightarrow>
             (case build (new_Compiler baseConfig services) of
                Inl e \<Rightarrow> (ErrorResult e, [CollectCall services, CollectBaseCall, BuildCall])
              | Inr compiler \<Rightarrow>
                  (case getStore compiler of
                     None \<Rightarrow>
                       (ErrorResult (Error ''envoy proxy configuration compilation failed''),
                        [CollectCall services, CollectBaseCall, BuildCall])
                   | Some compiledConfig \<Rightarrow>
                       (Result compiledConfig,
                        [CollectCall services, CollectBaseCall, BuildCall,
                         WriteYamlCall compiledConfig (output_file opts)]))))"

section \<open>Notions of the claims about discovery\<close>

text \<open>A directory entry that \<^verbatim>\<open>lstatSync\<close> reports as a regular file.\<close>

definition is_file :: "Platform \<Rightarrow> string \<Rightarrow> string \<Rightarrow> bool" where
  "is_file p dirPath item =
     (case lstatSync p (join p dirPath item) of None \<Rightarrow> False | Some stats \<Rightarrow> isFile stats)"

text \<open>The words of the specification: a name "ends in" a suffix.\<close>

definition ends_in :: "string \<Rightarrow> string \<Rightarrow> bool" where
  "ends_in s suffix = (length suffix \<le> length s \<and> drop (length s - length suffix) s = suffix)"

text \<open>A file whose parsed document exposes a \<^verbatim>\<open>routes\<close> (a \<^verbatim>\<open>clusters\<close>) array.\<close>

definition valid_routes_file :: "Platform \<Rightarrow> string \<Rightarrow> bool" where
  "valid_routes_file p path =
     (case get_field (read_yaml p path) ''routes'' of Some (YSeq rs) \<Rightarrow> True | _ \<Rightarrow> False)"

definition valid_clusters_file :: "Platform \<Rightarrow> string \<Rightarrow> bool" where
  "valid_clusters_file p path =
     (case get_field (read_yaml p path) ''clusters'' of Some (YSeq cs) \<Rightarrow> True | _ \<Rightarrow> False)"

text \<open>
  The files \<^verbatim>\<open>getRoutes\<close> and \<^verbatim>\<open>getClusters\<close> loop over in a folder:
  \<^verbatim>\<open>contents.files\<close>, and none when \<^verbatim>\<open>listDirContents\<close> returns \<^verbatim>\<open>null\<close>.
\<close>

definition listed_files :: "Platform \<Rightarrow> string \<Rightarrow> string list" where
  "listed_files p folderPath =
     (case listDirContents p folderPath of None \<Rightarrow> [] | Some contents \<Rightarrow> files contents)"

text \<open>
  The two folders \<^verbatim>\<open>findServiceConfigs\<close> scans for a service directory:
  \<^verbatim>\<open>join(configPath, "routes")\<close> and \<^verbatim>\<open>join(configPath, "clusters")\<close>, where
  \<^verbatim>\<open>configPath\<close> is \<^verbatim>\<open>join(folderPath, configFolder)\<close>.
\<close>

definition routes_folder :: "Platform \<Rightarrow> ConfigDiscover \<Rightarrow> string \<Rightarrow> string" where
  "routes_folder p d folderPath = join p (join p folderPath (configFolderName d)) ''routes''"

definition clusters_folder :: "Platform \<Rightarrow> ConfigDiscover \<Rightarrow> string \<Rightarrow> string" where
  "clusters_folder p d folderPath = join p (join p folderPath (configFolderName d)) ''clusters''"

section \<open>An example file system\<close>

text \<open>
  Four service directories are asked for. \<^verbatim>\<open>svc1\<close> has routes in a good file, a file
  that does not parse, a text file and a backup file, and one cluster file; \<^verbatim>\<open>svc2\<close>
  has no \<^verbatim>\<open>envoy\<close> folder; \<^verbatim>\<open>svc3\<close> does not exist; \<^verbatim>\<open>svc4\<close> has one route file and
  no \<^verbatim>\<open>clusters\<close> folder. There is no base file. A fifth directory, \<^verbatim>\<open>svc5\<close>, is on
  the disk and is not asked for: all its files are named \<^verbatim>\<open>.yaml\<close>; its routes are in two
  good files, between them a file that does not parse and a file whose \<^verbatim>\<open>routes\<close> is not
  an array, and its clusters in one good file next to one that holds a comment only.
\<close>

definition route_yaml :: "string \<Rightarrow> yaml" where
  "route_yaml pre = YMap [(''match'', YMap [(''prefix'', YStr pre)])]"

definition cluster_yaml :: "string \<Rightarrow> yaml" where
  "cluster_yaml n = YMap [(''name'', YStr n)]"

definition example_asRoute :: "yaml \<Rightarrow> Route" where
  "example_asRoute y =
     \<lparr>match_prefix =
        (case get_field y ''match'' of
           Some m \<Rightarrow> (case get_field m ''prefix'' of Some (YStr s) \<Rightarrow> s | _ \<Rightarrow> '''')
         | None \<Rightarrow> ''''),
      route_cluster = None\<rparr>"

definition example_asCluster :: "yaml \<Rightarrow> Cluster" where
  "example_asCluster y =
     \<lparr>name = (case get_field y ''name'' of Some (YStr s) \<Rightarrow> s | _ \<Rightarrow> ''''),
      type = None\<rparr>"

definition a_folder :: Stats where
  "a_folder = \<lparr>isFile = False, isDirectory = True\<rparr>"

definition a_file :: Stats where
  "a_file = \<lparr>isFile = True, isDirectory = False\<rparr>"

definition example_platform :: Platform where
  "example_platform =
     \<lparr>readdirSync = map_of
        [(''svc1'', [''envoy'', ''README.md'']),
         (''svc1/envoy/routes'', [''good.yaml'', ''bad.yaml'', ''notes.txt'', ''old.yaml.bak'']),
         (''svc1/envoy/clusters'', [''c.yaml'']),
         (''svc2'', [''src'']),
         (''svc4'', [''envoy'']),
         (''svc4/envoy/routes'', [''r.yaml'']),
         (''svc5'', [''envoy'']),
         (''svc5/envoy/routes'', [''x.yaml'', ''broken.yaml'', ''shape.yaml'', ''y.yaml'']),
         (''svc5/envoy/clusters'', [''c.yaml'', ''empty.yaml''])],
      lstatSync = map_of
        [(''svc1/envoy'', a_folder), (''svc1/README.md'', a_file),
         (''svc1/envoy/routes/good.yaml'', a_file), (''svc1/envoy/routes/bad.yaml'', a_file),
         (''svc1/envoy/routes/notes.txt'', a_file), (''svc1/envoy/routes/old.yaml.bak'', a_file),
         (''svc1/envoy/clusters/c.yaml'', a_file),
         (''svc2/src'', a_folder),
         (''svc4/envoy'', a_folder), (''svc4/envoy/routes/r.yaml'', a_file),
         (''svc5/envoy'', a_folder),
         (''svc5/envoy/routes/x.yaml'', a_file), (''svc5/envoy/routes/broken.yaml'', a_file),
         (''svc5/envoy/routes/shape.yaml'', a_file), (''svc5/envoy/routes/y.yaml'', a_file),
         (''svc5/envoy/clusters/c.yaml'', a_file), (''svc5/envoy/clusters/empty.yaml'', a_file)],
      readFileSync = map_of
        [(''svc1/envoy/routes/good.yaml'', ''routes: [{match: {prefix: /a}}]''),
         (''svc1/envoy/routes/bad.yaml'', ''routes: [{''),
         (''svc1/envoy/routes/notes.txt'', ''routes: [{match: {prefix: /n}}]''),
         (''svc1/envoy/routes/old.yaml.bak'', ''routes: [{match: {prefix: /old}}]''),
         (''svc1/envoy/clusters/c.yaml'', ''clusters: [{name: c1}]''),
         (''svc4/envoy/routes/r.yaml'', ''routes: [{match: {prefix: /b}}]''),
         (''svc5/envoy/routes/x.yaml'', ''routes: [{match: {prefix: /x}}]''),
         (''svc5/envoy/routes/broken.yaml'', ''routes: [{''),
         (''svc5/envoy/routes/shape.yaml'', ''routes: none''),
         (''svc5/envoy/routes/y.yaml'', ''routes: [{match: {prefix: /y}}]''),
         (''svc5/envoy/clusters/c.yaml'', ''clusters: [{name: c5}]''),
         (''svc5/envoy/clusters/empty.yaml'', ''# none yet'')],
      load = map_of
        [(''routes: [{match: {prefix: /a}}]'', YMap [(''routes'', YSeq [route_yaml ''/a''])]),
         (''routes: [{match: {prefix: /n}}]'', YMap [(''routes'', YSeq [route_yaml ''/n''])]),
         (''routes: [{match: {prefix: /old}}]'', YMap [(''routes'', YSeq [route_yaml ''/old''])]),
         (''routes: [{match: {prefix: /b}}]'', YMap [(''routes'', YSeq [route_yaml ''/b''])]),
         (''clusters: [{name: c1}]'', YMap [(''clusters'', YSeq [cluster_yaml ''c1''])]),
         (''routes: [{match: {prefix: /x}}]'', YMap [(''routes'', YSeq [route_yaml ''/x''])]),
         (''routes: [{match: {prefix: /y}}]'', YMap [(''routes'', YSeq [route_yaml ''/y''])]),
         (''routes: none'', YMap [(''routes'', YStr ''none'')]),
         (''clusters: [{name: c5}]'', YMap [(''clusters'', YSeq [cluster_yaml ''c5''])]),
         (''# none yet'', YNull)],
      join = (\<lambda>a b. a @ ''/'' @ b),
      asRoute = example_asRoute,
      asCluster = example_asCluster,
      asEnvoyConfig = (\<lambda>y. base_with (Some []) [])\<rparr>"

definition example_request :: ExecutionRequestBody where
  "example_request =
     \<lparr>options = Some [(''base'', StringValue ''base.yaml''), (''output'', StringValue ''out.yaml''),
                      (''items'', ArrayValue [''svc1'', ''svc2'', ''svc3'', ''svc4''])]\<rparr>"

definition example_discovery :: ConfigDiscover where
  "example_discovery =
     new_ConfigDiscover [''svc1'', ''svc2'', ''svc3'', ''svc4''] ''base.yaml'' ''envoy''"

section \<open>Properties of the cluster merge\<close>

lemma findIndex_none: "(findIndex P xs = - 1) = (\<forall>x\<in>set xs. \<not> P x)"
  and findIndex_ge: "- 1 \<le> findIndex P xs"
  by (induction xs) (auto simp: Let_def)

lemma findIndex_first:
  "\<forall>x\<in>set xs. \<not> P x \<Longrightarrow> P y \<Longrightarrow> findIndex P (xs @ y # ys) = int (length xs)"
  by (induction xs) (auto simp: Let_def)

lemma findIndex_split:
  "findIndex P xs \<noteq> - 1 \<Longrightarrow>
     \<exists>ys y zs. xs = ys @ y # zs \<and> (\<forall>x\<in>set ys. \<not> P x) \<and> P y \<and> findIndex P xs = int (length ys)"
proof -
  assume "findIndex P xs \<noteq> - 1"
  then have "\<exists>x\<in>set xs. P x" by (simp add: findIndex_none)
  from split_list_first_prop[OF this]
  obtain ys y zs where s: "xs = ys @ y # zs" "P y" "\<forall>x\<in>set ys. \<not> P x"
    by blast
  then show ?thesis using findIndex_first[of ys P y zs] by blast
qed

lemma mergeCluster_absent:
  "\<forall>x\<in>set cs. name x \<noteq> name n \<Longrightarrow> mergeCluster cs n = cs @ [n]"
  by (auto simp: mergeCluster_def Let_def findIndex_none)

lemma mergeCluster_present:
  assumes "\<forall>x\<in>set xs. name x \<noteq> name n" "name c = name n"
  shows "mergeCluster (xs @ c # ys) n = xs @ n # ys"
proof -
  have "findIndex (\<lambda>cluster. name n = name cluster) (xs @ c # ys) = int (length xs)"
    using assms by (intro findIndex_first) auto
  then show ?thesis by (simp add: mergeCluster_def Let_def)
qed

lemma mergeCluster_cases:
  "((\<forall>x\<in>set cs. name x \<noteq> name n) \<and> mergeCluster cs n = cs @ [n]) \<or>
   (\<exists>xs c ys. cs = xs @ c # ys \<and> (\<forall>x\<in>set xs. name x \<noteq> name n) \<and> name c = name n \<and>
      mergeCluster cs n = xs @ n # ys)"
proof (cases "\<exists>x\<in>set cs. name x = name n")
  case False
  then show ?thesis by (simp add: mergeCluster_absent)
next
  case True
  from split_list_first_prop[OF this]
  obtain xs c ys where "cs = xs @ c # ys" "name c = name n" "\<forall>x\<in>set xs. name x \<noteq> name n"
    by blast
  then show ?thesis using mergeCluster_present[of xs n c ys] by blast
qed

lemma names_mergeCluster:
  "map name (mergeCluster cs n) =
     (if name n \<in> set (map name cs) then map name cs else map name cs @ [name n])"
  using mergeCluster_cases[of cs n] by auto

lemma distinct_mergeCluster:
  "distinct (map name cs) \<Longrightarrow> distinct (map name (mergeCluster cs n))"
  by (simp add: names_mergeCluster)

lemma find_app:
  "find P (xs @ ys) = (case find P xs of Some x \<Rightarrow> Some x | None \<Rightarrow> find P ys)"
  by (induction xs) auto

lemma find_mergeCluster:
  "find (\<lambda>c. name c = k) (mergeCluster cs n) =
     (if name n = k then Some n else find (\<lambda>c. name c = k) cs)"
proof -
  consider (absent) "\<forall>x\<in>set cs. name x \<noteq> name n" "mergeCluster cs n = cs @ [n]"
    | (present) xs c ys where "cs = xs @ c # ys" "\<forall>x\<in>set xs. name x \<noteq> name n"
        "name c = name n" "mergeCluster cs n = xs @ n # ys"
    using mergeCluster_cases[of cs n] by blast
  then show ?thesis
  proof cases
    case absent
    then have "name n = k \<Longrightarrow> find (\<lambda>c. name c = k) cs = None"
      by (auto simp: find_None_iff)
    with absent show ?thesis by (auto simp: find_app split: option.splits)
  next
    case present
    then have "name n = k \<Longrightarrow> find (\<lambda>c. name c = k) xs = None"
      by (auto simp: find_None_iff)
    with present show ?thesis by (auto simp: find_app split: option.splits)
  qed
qed

lemma mergeClusters_foldl: "mergeClusters cs ns = foldl mergeCluster cs ns"
  by (induction ns arbitrary: cs) auto

lemma mergeClusters_append: "mergeClusters cs (ns @ ms) = mergeClusters (mergeClusters cs ns) ms"
  by (simp add: mergeClusters_foldl)

lemma distinct_mergeClusters:
  "distinct (map name cs) \<Longrightarrow> distinct (map name (mergeClusters cs ns))"
  by (induction ns arbitrary: cs) (auto simp: distinct_mergeCluster)

lemma find_mergeClusters:
  "find (\<lambda>c. name c = k) (mergeClusters cs ns) =
     (case find (\<lambda>c. name c = k) (rev ns) of
        Some c \<Rightarrow> Some c
      | None \<Rightarrow> find (\<lambda>c. name c = k) cs)"
  by (induction ns arbitrary: cs) (auto simp: find_mergeCluster find_app split: option.splits)

lemma find_rev_last:
  "k \<in> name ` set ns \<Longrightarrow>
     find (\<lambda>c. name c = k) (rev ns) = Some (last (filter (\<lambda>c. name c = k) ns))"
  by (induction ns rule: rev_induct) (auto simp: find_app)

lemma mergeCluster_index:
  assumes "\<exists>x\<in>set cs. name x = name n"
  shows "\<exists>i<length cs. name (cs ! i) = name n \<and> (\<forall>j<i. name (cs ! j) \<noteq> name n) \<and>
           mergeCluster cs n = cs[i := n]"
proof -
  from split_list_first_prop[OF assms]
  obtain xs c ys where s: "cs = xs @ c # ys" "name c = name n" "\<forall>x\<in>set xs. name x \<noteq> name n"
    by blast
  have "mergeCluster cs n = xs @ n # ys"
    using s mergeCluster_present[of xs n c ys] by simp
  moreover have "cs[length xs := n] = xs @ n # ys" using s(1) by simp
  moreover have "\<forall>j<length xs. name (cs ! j) \<noteq> name n"
    using s(1,3) by (simp add: nth_append)
  moreover have "name (cs ! length xs) = name n" using s(1,2) by simp
  moreover have "length xs < length cs" using s(1) by simp
  ultimately show ?thesis by (intro exI[of _ "length xs"]) simp
qed

lemma mergeCluster_at:
  assumes "i < length cs" "name (cs ! i) = name n" "\<forall>k<i. name (cs ! k) \<noteq> name n"
  shows "mergeCluster cs n = cs[i := n]"
proof -
  have c: "cs = take i cs @ cs ! i # drop (Suc i) cs"
    using assms(1) by (rule id_take_nth_drop)
  have "\<forall>x\<in>set (take i cs). name x \<noteq> name n"
    using assms(1,3) by (auto simp: in_set_conv_nth)
  then have "mergeCluster (take i cs @ cs ! i # drop (Suc i) cs) n = take i cs @ n # drop (Suc i) cs"
    using assms(2) by (rule mergeCluster_present)
  then show ?thesis using c assms(1) by (simp add: upd_conv_take_nth_drop)
qed

section \<open>Properties of the route merge and of the build loop\<close>

lemma first_virtual_host_SomeD:
  "first_virtual_host cfg = Some vh \<Longrightarrow>
   \<exists>sr l ls fc fcs f fs tc rc vhs.
     static_resources cfg = Some sr \<and> listeners sr = Some (l # ls) \<and>
     filter_chains l = Some (fc # fcs) \<and> filters fc = Some (f # fs) \<and>
     typed_config f = Some tc \<and> route_config tc = Some rc \<and>
     virtual_hosts rc = Some (vh # vhs)"
  by (auto simp: first_virtual_host_def split: option.splits list.splits)

lemma target_routes_SomeD:
  "target_routes cfg = Some r0 \<Longrightarrow> \<exists>vh. first_virtual_host cfg = Some vh \<and> routes vh = Some r0"
  by (auto simp: target_routes_def split: option.splits)

lemma target_routes_defined:
  assumes "target_routes cfg = Some r0"
  shows "route_merge_defined cfg"
proof -
  from target_routes_SomeD[OF assms]
  obtain vh where v: "first_virtual_host cfg = Some vh" "routes vh = Some r0" by blast
  from first_virtual_host_SomeD[OF v(1)]
  obtain sr l ls where "static_resources cfg = Some sr" "listeners sr = Some (l # ls)" by blast
  with v show ?thesis by (simp add: route_merge_defined_def)
qed

lemma route_merge_defined_target:
  "route_merge_defined cfg \<Longrightarrow> target_routes cfg = None \<Longrightarrow> first_virtual_host cfg = None"
  by (auto simp: route_merge_defined_def target_routes_def split: option.splits)

lemma addRoute_null_store: "store c = None \<Longrightarrow> addRoute r c = Inr c"
  by (simp add: addRoute_def)

lemma addRoute_no_listeners:
  "store c = Some cfg \<Longrightarrow> static_resources cfg = Some sr \<Longrightarrow> listeners sr = None \<Longrightarrow>
     addRoute r c = Inl TypeError"
  by (simp add: addRoute_def)

lemma addRoute_unresolved:
  "store c = Some cfg \<Longrightarrow> static_resources cfg = Some sr \<Longrightarrow> listeners sr \<noteq> None \<Longrightarrow>
   first_virtual_host cfg = None \<Longrightarrow> addRoute r c = Inr c"
  by (auto simp: addRoute_def first_virtual_host_def split: option.splits list.splits)

lemma addRoute_resolved:
  assumes "store c = Some cfg" "first_virtual_host cfg = Some vh" "routes vh = Some r0"
  shows "\<exists>cfg'. addRoute r c = Inr (c\<lparr>store := Some cfg'\<rparr>) \<and>
      target_routes cfg' = Some (concat_routes r0 r) \<and>
      doc_clusters cfg' = doc_clusters cfg \<and> route_merge_defined cfg'"
proof -
  from first_virtual_host_SomeD[OF assms(2)]
  obtain sr l ls fc fcs f fs tc rc vhs where p:
    "static_resources cfg = Some sr" "listeners sr = Some (l # ls)"
    "filter_chains l = Some (fc # fcs)" "filters fc = Some (f # fs)"
    "typed_config f = Some tc" "route_config tc = Some rc"
    "virtual_hosts rc = Some (vh # vhs)"
    by blast
  define cfg' where "cfg' = cfg\<lparr>static_resources := Some (sr
            \<lparr>listeners := Some (l\<lparr>filter_chains := Some (fc\<lparr>filters := Some (f
              \<lparr>typed_config := Some (tc\<lparr>route_config := Some (rc
                \<lparr>virtual_hosts := Some (vh\<lparr>routes := Some (concat_routes r0 r)\<rparr>
                   # vhs)\<rparr>)\<rparr>)\<rparr> # fs)\<rparr> # fcs)\<rparr> # ls)\<rparr>)\<rparr>"
  have "addRoute r c = Inr (c\<lparr>store := Some cfg'\<rparr>)"
    using assms(1,3) p by (simp add: addRoute_def cfg'_def)
  moreover have t: "target_routes cfg' = Some (concat_routes r0 r)"
    by (simp add: target_routes_def first_virtual_host_def cfg'_def)
  moreover have "doc_clusters cfg' = doc_clusters cfg"
    using p(1) by (simp add: doc_clusters_def cfg'_def)
  moreover have "route_merge_defined cfg'" using t by (rule target_routes_defined)
  ultimately show ?thesis by blast
qed

lemma addRoute_ok:
  assumes "store c = Some cfg" "route_merge_defined cfg"
  shows "\<exists>cfg'. addRoute r c = Inr (c\<lparr>store := Some cfg'\<rparr>) \<and>
      target_routes cfg' = map_option (\<lambda>r0. concat_routes r0 r) (target_routes cfg) \<and>
      doc_clusters cfg' = doc_clusters cfg \<and> route_merge_defined cfg'"
proof (cases "target_routes cfg")
  case None
  then have f: "first_virtual_host cfg = None"
    using assms(2) by (rule_tac route_merge_defined_target)
  obtain sr where sr: "static_resources cfg = Some sr" "listeners sr \<noteq> None"
    using assms(2) by (auto simp: route_merge_defined_def split: option.splits)
  have "addRoute r c = Inr c" using assms(1) sr f by (rule addRoute_unresolved)
  moreover have "c\<lparr>store := Some cfg\<rparr> = c" using assms(1) by simp
  ultimately show ?thesis using None assms(2) by (intro exI[of _ cfg]) simp
next
  case (Some r0)
  from target_routes_SomeD[OF Some]
  obtain vh where "first_virtual_host cfg = Some vh" "routes vh = Some r0" by blast
  from addRoute_resolved[OF assms(1) this, of r]
  show ?thesis using Some by auto
qed

lemma mergeClusters_store_ok:
  assumes "doc_clusters cfg \<noteq> None \<or> ns = []"
  shows "\<exists>cfg'. mergeClusters_store cfg ns = Inr cfg' \<and>
      doc_clusters cfg' = map_option (\<lambda>cs. mergeClusters cs ns) (doc_clusters cfg) \<and>
      target_routes cfg' = target_routes cfg \<and>
      route_merge_defined cfg' = route_merge_defined cfg"
proof (cases ns)
  case Nil
  then show ?thesis
    by (simp add: mergeClusters_store_def option.map_ident)
next
  case (Cons n rest)
  with assms obtain sr cs where p: "static_resources cfg = Some sr" "clusters sr = Some cs"
    by (auto simp: doc_clusters_def split: option.splits)
  define cfg' where
    "cfg' = cfg\<lparr>static_resources := Some (sr\<lparr>clusters := Some (mergeClusters cs ns)\<rparr>)\<rparr>"
  have "mergeClusters_store cfg ns = Inr cfg'"
    using p Cons by (simp add: mergeClusters_store_def cfg'_def)
  moreover have "doc_clusters cfg' = map_option (\<lambda>cs. mergeClusters cs ns) (doc_clusters cfg)"
    using p by (simp add: doc_clusters_def cfg'_def)
  moreover have f: "first_virtual_host cfg' = first_virtual_host cfg"
    using p by (simp add: first_virtual_host_def cfg'_def)
  moreover have "target_routes cfg' = target_routes cfg"
    using f by (simp add: target_routes_def)
  moreover have "route_merge_defined cfg' = route_merge_defined cfg"
    using f p by (simp add: route_merge_defined_def cfg'_def cong: option.case_cong)
  ultimately show ?thesis by blast
qed

lemma mergeConfig_service:
  assumes "store c = Some cfg" "route_merge_defined cfg" "doc_clusters cfg \<noteq> None \<or> cs = []"
  shows "\<exists>cfg'. mergeConfig (service cs rs) c = Inr (c\<lparr>store := Some cfg'\<rparr>) \<and>
      doc_clusters cfg' = map_option (\<lambda>xs. mergeClusters xs cs) (doc_clusters cfg) \<and>
      target_routes cfg' = map_option (\<lambda>r0. r0 @ map Some rs) (target_routes cfg) \<and>
      route_merge_defined cfg'"
proof -
  from mergeClusters_store_ok[OF assms(3)]
  obtain cfg1 where m1: "mergeClusters_store cfg cs = Inr cfg1"
    "doc_clusters cfg1 = map_option (\<lambda>xs. mergeClusters xs cs) (doc_clusters cfg)"
    "target_routes cfg1 = target_routes cfg"
    "route_merge_defined cfg1 = route_merge_defined cfg"
    by blast
  define c1 where "c1 = c\<lparr>store := Some cfg1\<rparr>"
  have m: "mergeConfig (service cs rs) c = addRoute (Some rs) c1"
    using assms(1) m1(1) by (simp add: mergeConfig_def service_def c1_def)
  have s1: "store c1 = Some cfg1" by (simp add: c1_def)
  have d1: "route_merge_defined cfg1" using assms(2) m1(4) by simp
  from addRoute_ok[OF s1 d1, of "Some rs"]
  obtain cfg' where a: "addRoute (Some rs) c1 = Inr (c1\<lparr>store := Some cfg'\<rparr>)"
    "target_routes cfg' = map_option (\<lambda>r0. concat_routes r0 (Some rs)) (target_routes cfg1)"
    "doc_clusters cfg' = doc_clusters cfg1"
    "route_merge_defined cfg'"
    by blast
  have "c1\<lparr>store := Some cfg'\<rparr> = c\<lparr>store := Some cfg'\<rparr>" by (simp add: c1_def)
  with m a m1 show ?thesis
    by (intro exI[of _ cfg']) (simp add: concat_routes_def)
qed

lemma build_loop_services:
  "store c = Some cfg \<Longrightarrow> route_merge_defined cfg \<Longrightarrow>
   doc_clusters cfg \<noteq> None \<or> concat (map fst fs) = [] \<Longrightarrow>
   \<exists>cfg'. build_loop (map (\<lambda>(cs, rs). service cs rs) fs) c = Inr (c\<lparr>store := Some cfg'\<rparr>) \<and>
      doc_clusters cfg' =
        map_option (\<lambda>xs. mergeClusters xs (concat (map fst fs))) (doc_clusters cfg) \<and>
      target_routes cfg' =
        map_option (\<lambda>r0. r0 @ map Some (concat (map snd fs))) (target_routes cfg) \<and>
      route_merge_defined cfg'"
proof (induction fs arbitrary: c cfg)
  case Nil
  then have "c\<lparr>store := Some cfg\<rparr> = c" by simp
  with Nil show ?case by (intro exI[of _ cfg]) (simp add: option.map_ident)
next
  case (Cons p fs)
  obtain cs rs where p: "p = (cs, rs)" by (cases p)
  have h: "doc_clusters cfg \<noteq> None \<or> cs = []" using Cons.prems(3) p by auto
  from mergeConfig_service[OF Cons.prems(1,2) h, of rs]
  obtain cfg1 where m: "mergeConfig (service cs rs) c = Inr (c\<lparr>store := Some cfg1\<rparr>)"
    "doc_clusters cfg1 = map_option (\<lambda>xs. mergeClusters xs cs) (doc_clusters cfg)"
    "target_routes cfg1 = map_option (\<lambda>r0. r0 @ map Some rs) (target_routes cfg)"
    "route_merge_defined cfg1"
    by blast
  have s1: "store (c\<lparr>store := Some cfg1\<rparr>) = Some cfg1" by simp
  have h1: "doc_clusters cfg1 \<noteq> None \<or> concat (map fst fs) = []"
    using Cons.prems(3) p m(2) by auto
  from Cons.IH[OF s1 m(4) h1]
  obtain cfg' where l: "build_loop (map (\<lambda>(cs, rs). service cs rs) fs) (c\<lparr>store := Some cfg1\<rparr>) =
       Inr (c\<lparr>store := Some cfg1, store := Some cfg'\<rparr>)"
    "doc_clusters cfg' =
        map_option (\<lambda>xs. mergeClusters xs (concat (map fst fs))) (doc_clusters cfg1)"
    "target_routes cfg' =
        map_option (\<lambda>r0. r0 @ map Some (concat (map snd fs))) (target_routes cfg1)"
    "route_merge_defined cfg'"
    by blast
  show ?case
    using Cons.prems(1) m l p
    by (intro exI[of _ cfg'])
       (simp add: mergeClusters_append option.map_comp comp_def)
qed

lemma build_services:
  assumes "route_merge_defined configBase"
    and "doc_clusters configBase \<noteq> None \<or> concat (map fst fs) = []"
  shows "\<exists>cfg'. build (new_Compiler configBase (map (\<lambda>(cs, rs). service cs rs) fs)) =
        Inr \<lparr>serviceConfigs = map (\<lambda>(cs, rs). service cs rs) fs, store = Some cfg'\<rparr> \<and>
      doc_clusters cfg' =
        map_option (\<lambda>xs. mergeClusters xs (concat (map fst fs))) (doc_clusters configBase) \<and>
      target_routes cfg' =
        map_option (\<lambda>r0. r0 @ map Some (concat (map snd fs))) (target_routes configBase)"
proof -
  let ?c = "new_Compiler configBase (map (\<lambda>(cs, rs). service cs rs) fs)"
  have "store ?c = Some configBase" by (simp add: new_Compiler_def)
  from build_loop_services[OF this assms]
  show ?thesis by (auto simp: build_def new_Compiler_def)
qed

lemma addRoute_store:
  "addRoute r c = Inr c' \<Longrightarrow> store c \<noteq> None \<Longrightarrow> store c' \<noteq> None"
  by (auto simp: addRoute_def split: option.splits list.splits)

lemma addRoute_error: "addRoute r c = Inl e \<Longrightarrow> e = TypeError"
  by (auto simp: addRoute_def split: option.splits list.splits)

lemma mergeClusters_store_error: "mergeClusters_store cfg ns = Inl e \<Longrightarrow> e = TypeError"
  by (auto simp: mergeClusters_store_def split: option.splits list.splits)

lemma mergeConfig_store:
  "mergeConfig s c = Inr c' \<Longrightarrow> store c \<noteq> None \<Longrightarrow> store c' \<noteq> None"
  by (auto simp: mergeConfig_def split: option.splits sum.splits dest!: addRoute_store)

lemma mergeConfig_error: "mergeConfig s c = Inl e \<Longrightarrow> e = TypeError"
  by (auto simp: mergeConfig_def split: option.splits sum.splits
      dest: addRoute_error mergeClusters_store_error)

lemma build_loop_error: "build_loop ss c = Inl e \<Longrightarrow> e = TypeError"
  by (induction ss arbitrary: c) (auto split: if_splits sum.splits dest: mergeConfig_error)

lemma build_loop_absent_clusters:
  "s \<in> set ss \<Longrightarrow> sc_clusters s = None \<Longrightarrow> store c \<noteq> None \<Longrightarrow>
     build_loop ss c = Inl TypeError"
proof (induction ss arbitrary: c)
  case Nil
  then show ?case by simp
next
  case (Cons a ss)
  show ?case
  proof (cases "mergeConfig a c")
    case (Inl e)
    then show ?thesis using Cons.prems(3) by (auto dest: mergeConfig_error)
  next
    case (Inr c')
    then have "a \<noteq> s" using Cons.prems by (auto simp: mergeConfig_def split: option.splits)
    then have "s \<in> set ss" using Cons.prems(1) by simp
    moreover have "store c' \<noteq> None" using Inr Cons.prems(3) by (rule mergeConfig_store)
    ultimately show ?thesis using Cons.IH Cons.prems Inr by simp
  qed
qed

lemma addRoute_empty:
  assumes "store c = Some cfg" "route_merge_defined cfg"
  shows "addRoute (Some []) c = Inr c"
proof (cases "first_virtual_host cfg")
  case None
  obtain sr where sr: "static_resources cfg = Some sr" "listeners sr \<noteq> None"
    using assms(2) by (auto simp: route_merge_defined_def split: option.splits)
  show ?thesis using assms(1) sr None by (rule addRoute_unresolved)
next
  case (Some vh)
  from first_virtual_host_SomeD[OF Some]
  obtain sr l ls fc fcs f fs tc rc vhs where p:
    "static_resources cfg = Some sr" "listeners sr = Some (l # ls)"
    "filter_chains l = Some (fc # fcs)" "filters fc = Some (f # fs)"
    "typed_config f = Some tc" "route_config tc = Some rc"
    "virtual_hosts rc = Some (vh # vhs)"
    by blast
  obtain r0 where r0: "routes vh = Some r0"
    using assms(2) Some p by (auto simp: route_merge_defined_def)
  have 0: "vh\<lparr>routes := Some r0\<rparr> = vh" using r0 by (cases vh) simp
  have 1: "rc\<lparr>virtual_hosts := Some (vh # vhs)\<rparr> = rc" using p(7) by (cases rc) simp
  have 2: "tc\<lparr>route_config := Some rc\<rparr> = tc" using p(6) by (cases tc) simp
  have 3: "f\<lparr>typed_config := Some tc\<rparr> = f" using p(5) by (cases f) simp
  have 4: "fc\<lparr>filters := Some (f # fs)\<rparr> = fc" using p(4) by (cases fc) simp
  have 5: "l\<lparr>filter_chains := Some (fc # fcs)\<rparr> = l" using p(3) by (cases l) simp
  have 6: "sr\<lparr>listeners := Some (l # ls)\<rparr> = sr" using p(2) by (cases sr) simp
  have 7: "cfg\<lparr>static_resources := Some sr\<rparr> = cfg" using p(1) by (cases cfg) simp
  have 8: "c\<lparr>store := Some cfg\<rparr> = c" using assms(1) by (cases c) simp
  show ?thesis
    using assms(1) p r0 by (simp add: addRoute_def concat_routes_def 0 1 2 3 4 5 6 7 8)
qed

text \<open>
  Outside the hypotheses of \<open>mergeConfig_service\<close> the merge of a fragment throws: the
  three reads of \<^verbatim>\<open>addRoute\<close> and the read of \<^verbatim>\<open>clusters\<close> in the cluster loop have no
  guard.
\<close>

lemma addRoute_undefined:
  "store c = Some cfg \<Longrightarrow> \<not> route_merge_defined cfg \<Longrightarrow> addRoute r c = Inl TypeError"
  by (auto simp: route_merge_defined_def first_virtual_host_def addRoute_def
      split: option.splits list.splits)

lemma mergeClusters_store_undefined:
  "doc_clusters cfg = None \<Longrightarrow> ns \<noteq> [] \<Longrightarrow> mergeClusters_store cfg ns = Inl TypeError"
  by (auto simp: doc_clusters_def mergeClusters_store_def split: option.splits list.splits)

lemma mergeConfig_undefined:
  assumes "store c = Some cfg"
    and "\<not> route_merge_defined cfg \<or> (doc_clusters cfg = None \<and> cs \<noteq> [])"
  shows "mergeConfig (service cs rs) c = Inl TypeError"
proof (cases "doc_clusters cfg = None \<and> cs \<noteq> []")
  case True
  then show ?thesis
    using assms(1) by (simp add: mergeConfig_def service_def mergeClusters_store_undefined)
next
  case False
  then have d: "doc_clusters cfg \<noteq> None \<or> cs = []" by auto
  from False assms(2) have n: "\<not> route_merge_defined cfg" by auto
  from mergeClusters_store_ok[OF d] obtain cfg1 where
    m: "mergeClusters_store cfg cs = Inr cfg1" "route_merge_defined cfg1 = route_merge_defined cfg"
    by blast
  have "addRoute (Some rs) (c\<lparr>store := Some cfg1\<rparr>) = Inl TypeError"
    by (rule addRoute_undefined[of _ cfg1]) (simp_all add: m(2) n)
  then show ?thesis using assms(1) m(1) by (simp add: mergeConfig_def service_def)
qed

section \<open>The claims about the compiler\<close>

text \<open>
  In the theorems below a sequence of service fragments whose two arrays are present is
  written \<open>map (\<lambda>(cs, rs). service cs rs) fs\<close>, for a list \<open>fs\<close> of pairs of a cluster
  list and a route list.
\<close>

text \<open>
  Claim C1, as stated, fails on a base document that already has two clusters of one
  name: \<^verbatim>\<open>mergeConfig\<close> replaces or appends fragment clusters and never removes a
  cluster of the base document, so both entries named \<open>a\<close> are still there after the
  build.
\<close>

theorem duplicate_base_names_survive_build:
  "final_clusters (build (new_Compiler
      (base_with (Some [listener_1 []])
         [\<lparr>name = ''a'', type = Some ''first''\<rparr>, \<lparr>name = ''a'', type = Some ''second''\<rparr>])
      [service [\<lparr>name = ''b'', type = None\<rparr>] []])) =
     Some [\<lparr>name = ''a'', type = Some ''first''\<rparr>, \<lparr>name = ''a'', type = Some ''second''\<rparr>,
           \<lparr>name = ''b'', type = None\<rparr>] \<and>
   \<not> distinct (map name
     [\<lparr>name = ''a'', type = Some ''first''\<rparr>, \<lparr>name = ''a'', type = Some ''second''\<rparr>,
      \<lparr>name = ''b'', type = None\<rparr>])"
  by (simp add: final_clusters_def doc_clusters_def build_def new_Compiler_def service_def
      mergeConfig_def mergeClusters_store_def addRoute_def base_with_def listener_1_def
      concat_routes_def mergeCluster_def)

text \<open>
  Claim C1, amended: for every base document that has its cluster array and on which the
  route merge is defined (\<^verbatim>\<open>static_resources\<close> and \<^verbatim>\<open>listeners\<close> are present, and the
  first virtual host, when the path resolves, has its \<^verbatim>\<open>routes\<close>), and every sequence of
  fragments, \<^verbatim>\<open>build\<close> returns; when the cluster names of the base document are pairwise
  distinct, so are those of the final cluster list; and, whatever the base names, for
  every cluster of a fragment the first final entry of its name is the last cluster of
  that name in the concatenation of the fragments' cluster lists in input order: the one
  of the latest service that has the name.
\<close>

theorem cluster_names_unique_last_write_wins:
  assumes "doc_clusters configBase = Some cs0"
    and "route_merge_defined configBase"
  shows "\<exists>cfg' cs'.
     build (new_Compiler configBase (map (\<lambda>(cs, rs). service cs rs) fs)) =
       Inr \<lparr>serviceConfigs = map (\<lambda>(cs, rs). service cs rs) fs, store = Some cfg'\<rparr> \<and>
     doc_clusters cfg' = Some cs' \<and>
     (distinct (map name cs0) \<longrightarrow> distinct (map name cs')) \<and>
     (\<forall>c\<in>set (concat (map fst fs)).
        find (\<lambda>x. name x = name c) cs' =
          Some (last (filter (\<lambda>x. name x = name c) (concat (map fst fs)))))"
proof -
  have h: "doc_clusters configBase \<noteq> None \<or> concat (map fst fs) = []"
    using assms(1) by simp
  define cs' where "cs' = mergeClusters cs0 (concat (map fst fs))"
  from build_services[OF assms(2) h]
  obtain cfg' where b:
    "build (new_Compiler configBase (map (\<lambda>(cs, rs). service cs rs) fs)) =
       Inr \<lparr>serviceConfigs = map (\<lambda>(cs, rs). service cs rs) fs, store = Some cfg'\<rparr>"
    "doc_clusters cfg' = Some cs'"
    using assms(1) by (auto simp: cs'_def)
  have "distinct (map name cs0) \<longrightarrow> distinct (map name cs')"
    by (simp add: cs'_def distinct_mergeClusters)
  moreover have "find (\<lambda>x. name x = name c) cs' =
          Some (last (filter (\<lambda>x. name x = name c) (concat (map fst fs))))"
    if "c \<in> set (concat (map fst fs))" for c
  proof -
    have "name c \<in> name ` set (concat (map fst fs))" using that by (rule imageI)
    then show ?thesis
      unfolding cs'_def find_mergeClusters by (simp add: find_rev_last)
  qed
  ultimately show ?thesis using b by blast
qed

theorem cluster_names_unique_last_write_wins_witness:
  "doc_clusters mockBaseConfig =
     Some [\<lparr>name = ''existing_cluster'', type = Some ''LOGICAL_DNS''\<rparr>] \<and>
   route_merge_defined mockBaseConfig \<and>
   distinct (map name [\<lparr>name = ''existing_cluster'', type = Some ''LOGICAL_DNS''\<rparr>]) \<and>
   (\<exists>cfg' cs'.
      build (new_Compiler mockBaseConfig
        [service [\<lparr>name = ''x'', type = Some ''t1''\<rparr>] [],
         service [\<lparr>name = ''x'', type = Some ''t2''\<rparr>] []]) =
      Inr \<lparr>serviceConfigs =
             [service [\<lparr>name = ''x'', type = Some ''t1''\<rparr>] [],
              service [\<lparr>name = ''x'', type = Some ''t2''\<rparr>] []],
           store = Some cfg'\<rparr> \<and>
      doc_clusters cfg' = Some cs' \<and>
      distinct (map name cs') \<and>
      find (\<lambda>x. name x = ''x'') cs' = Some \<lparr>name = ''x'', type = Some ''t2''\<rparr>)"
proof -
  have d: "doc_clusters mockBaseConfig =
     Some [\<lparr>name = ''existing_cluster'', type = Some ''LOGICAL_DNS''\<rparr>]"
    by (simp add: doc_clusters_def mockBaseConfig_def base_with_def)
  have l: "route_merge_defined mockBaseConfig"
    by (simp add: route_merge_defined_def first_virtual_host_def mockBaseConfig_def
        base_with_def listener_1_def)
  show ?thesis
    using d l cluster_names_unique_last_write_wins[OF d l, of "[([\<lparr>name = ''x'', type = Some ''t1''\<rparr>], []),
       ([\<lparr>name = ''x'', type = Some ''t2''\<rparr>], [])]"]
    by simp
qed

text \<open>
  Claim C2, as stated, fails on a base document whose path resolves and that has no
  \<^verbatim>\<open>clusters\<close> array: the cluster loop of \<^verbatim>\<open>mergeConfig\<close> calls
  \<^verbatim>\<open>this.store.static_resources.clusters.findIndex\<close> for the first cluster of the first
  fragment and throws, before any route is appended.
\<close>

theorem missing_base_clusters_abort_route_merge:
  "target_routes
     \<lparr>static_resources = Some \<lparr>listeners = Some [listener_1 [Some health]], clusters = None\<rparr>\<rparr> =
     Some [Some health] \<and>
   build (new_Compiler
     \<lparr>static_resources = Some \<lparr>listeners = Some [listener_1 [Some health]], clusters = None\<rparr>\<rparr>
     mockServiceConfigs) = Inl TypeError"
  by (simp add: target_routes_def first_virtual_host_def build_def new_Compiler_def
      mockServiceConfigs_def service_def mergeConfig_def mergeClusters_store_def listener_1_def)

text \<open>
  Claim C2, amended: for every base document whose virtual-host path resolves, with
  original routes \<open>r0\<close>, and that has its \<^verbatim>\<open>clusters\<close> array (or, without it, when no
  fragment brings a cluster), and every sequence of fragments, \<^verbatim>\<open>build\<close> returns and the
  route list of the first virtual host is \<open>r0\<close> followed by the fragments' routes
  concatenated in fragment order; its length is the length of \<open>r0\<close> plus the sum of the
  fragments' route counts. No route is removed or deduplicated.
\<close>

theorem routes_appended_in_fragment_order:
  assumes "target_routes configBase = Some r0"
    and "doc_clusters configBase \<noteq> None \<or> concat (map fst fs) = []"
  shows "\<exists>cfg' rs'.
     build (new_Compiler configBase (map (\<lambda>(cs, rs). service cs rs) fs)) =
       Inr \<lparr>serviceConfigs = map (\<lambda>(cs, rs). service cs rs) fs, store = Some cfg'\<rparr> \<and>
     target_routes cfg' = Some rs' \<and>
     rs' = r0 @ map Some (concat (map snd fs)) \<and>
     length rs' = length r0 + sum_list (map (\<lambda>(cs, rs). length rs) fs)"
proof -
  have l: "route_merge_defined configBase"
    using assms(1) by (rule target_routes_defined)
  have n: "length (concat (map snd fs)) = sum_list (map (\<lambda>(cs, rs). length rs) fs)"
    by (induction fs) auto
  from build_services[OF l assms(2)] show ?thesis
    using assms(1) n by auto
qed

theorem routes_appended_in_fragment_order_witness:
  "target_routes mockBaseConfig = Some [Some health] \<and>
   doc_clusters mockBaseConfig \<noteq> None \<and>
   final_routes (build (new_Compiler mockBaseConfig mockServiceConfigs)) =
     Some [Some health,
       Some \<lparr>match_prefix = ''/api/v1'', route_cluster = Some ''service1_cluster''\<rparr>,
       Some \<lparr>match_prefix = ''/api/v2'', route_cluster = Some ''service2_cluster''\<rparr>]"
proof -
  let ?fs = "[([\<lparr>name = ''service1_cluster'', type = Some ''test_type_original_1''\<rparr>],
       [\<lparr>match_prefix = ''/api/v1'', route_cluster = Some ''service1_cluster''\<rparr>]),
      ([\<lparr>name = ''service2_cluster'', type = Some ''test_type_original_2''\<rparr>],
        [\<lparr>match_prefix = ''/api/v2'', route_cluster = Some ''service2_cluster''\<rparr>])]"
  have h: "target_routes mockBaseConfig = Some [Some health]"
    by (simp add: target_routes_def first_virtual_host_def mockBaseConfig_def base_with_def
        listener_1_def)
  have d: "doc_clusters mockBaseConfig \<noteq> None"
    by (simp add: doc_clusters_def mockBaseConfig_def base_with_def)
  then have d': "doc_clusters mockBaseConfig \<noteq> None \<or> concat (map fst ?fs) = []" ..
  have m: "mockServiceConfigs = map (\<lambda>(cs, rs). service cs rs) ?fs"
    by (simp add: mockServiceConfigs_def)
  show ?thesis
    using h d routes_appended_in_fragment_order[OF h d']
    unfolding m by (auto simp: final_routes_def)
qed

text \<open>
  Claim C3: the merge step for one fragment cluster appends it at the end when no entry
  of the current list has its name, and otherwise replaces the first entry of that name
  at its position; \<^verbatim>\<open>mergeConfig\<close> applies this step to the fragment's clusters from left
  to right, on the cluster array of the document, before it calls \<^verbatim>\<open>addRoute\<close>. In the
  example scenario (a base document with the cluster
  \<open>existing_cluster\<close> and the route \<open>/health\<close>, a first fragment that adds \<open>svc1\<close> and
  \<open>/v1\<close>, a second one that redefines \<open>existing_cluster\<close> and adds \<open>/v2\<close>) the final
  clusters are \<open>existing_cluster\<close> with type \<open>new\<close>, then \<open>svc1\<close>, and the final routes
  are \<open>/health\<close>, \<open>/v1\<close>, \<open>/v2\<close>.
\<close>

theorem mergeCluster_replace_or_append:
  "((\<forall>x\<in>set cs. name x \<noteq> name n) \<longrightarrow> mergeCluster cs n = cs @ [n]) \<and>
   ((\<exists>x\<in>set cs. name x = name n) \<longrightarrow>
      (\<exists>i<length cs. name (cs ! i) = name n \<and> (\<forall>j<i. name (cs ! j) \<noteq> name n) \<and>
         mergeCluster cs n = cs[i := n])) \<and>
   (store c = Some cfg \<and> doc_clusters cfg = Some cs0 \<longrightarrow>
      (\<exists>cfg1. mergeClusters_store cfg ns = Inr cfg1 \<and>
         doc_clusters cfg1 = Some (foldl mergeCluster cs0 ns) \<and>
         mergeConfig (service ns rs) c = addRoute (Some rs) (c\<lparr>store := Some cfg1\<rparr>))) \<and>
   (store c = Some cfg \<and> doc_clusters cfg = Some cs0 \<and> route_merge_defined cfg \<longrightarrow>
      final_clusters (mergeConfig (service ns rs) c) = Some (foldl mergeCluster cs0 ns)) \<and>
   final_clusters (build (new_Compiler scenario_base [fragment1, fragment2])) =
     Some [\<lparr>name = ''existing_cluster'', type = Some ''new''\<rparr>, \<lparr>name = ''svc1'', type = None\<rparr>] \<and>
   final_routes (build (new_Compiler scenario_base [fragment1, fragment2])) =
     Some [Some \<lparr>match_prefix = ''/health'', route_cluster = None\<rparr>,
           Some \<lparr>match_prefix = ''/v1'', route_cluster = None\<rparr>,
           Some \<lparr>match_prefix = ''/v2'', route_cluster = None\<rparr>]"
proof (intro conjI impI)
  assume "\<forall>x\<in>set cs. name x \<noteq> name n"
  then show "mergeCluster cs n = cs @ [n]" by (rule mergeCluster_absent)
next
  assume "\<exists>x\<in>set cs. name x = name n"
  then show "\<exists>i<length cs. name (cs ! i) = name n \<and> (\<forall>j<i. name (cs ! j) \<noteq> name n) \<and>
         mergeCluster cs n = cs[i := n]" by (rule mergeCluster_index)
next
  assume a: "store c = Some cfg \<and> doc_clusters cfg = Some cs0"
  then have h: "doc_clusters cfg \<noteq> None \<or> ns = []" by simp
  from mergeClusters_store_ok[OF h]
  obtain cfg1 where m: "mergeClusters_store cfg ns = Inr cfg1"
    "doc_clusters cfg1 = map_option (\<lambda>cs. mergeClusters cs ns) (doc_clusters cfg)"
    by blast
  have "mergeConfig (service ns rs) c = addRoute (Some rs) (c\<lparr>store := Some cfg1\<rparr>)"
    using a m(1) by (simp add: mergeConfig_def service_def)
  with m a show "\<exists>cfg1. mergeClusters_store cfg ns = Inr cfg1 \<and>
         doc_clusters cfg1 = Some (foldl mergeCluster cs0 ns) \<and>
         mergeConfig (service ns rs) c = addRoute (Some rs) (c\<lparr>store := Some cfg1\<rparr>)"
    by (intro exI[of _ cfg1]) (simp add: mergeClusters_foldl)
next
  assume a: "store c = Some cfg \<and> doc_clusters cfg = Some cs0 \<and> route_merge_defined cfg"
  then have p: "store c = Some cfg" "route_merge_defined cfg" "doc_clusters cfg \<noteq> None \<or> ns = []"
    by simp_all
  from mergeConfig_service[OF p, of rs] a
  show "final_clusters (mergeConfig (service ns rs) c) = Some (foldl mergeCluster cs0 ns)"
    by (auto simp: final_clusters_def mergeClusters_foldl)
next
  show "final_clusters (build (new_Compiler scenario_base [fragment1, fragment2])) =
     Some [\<lparr>name = ''existing_cluster'', type = Some ''new''\<rparr>, \<lparr>name = ''svc1'', type = None\<rparr>]"
    by (simp add: final_clusters_def doc_clusters_def build_def new_Compiler_def service_def
      mergeConfig_def mergeClusters_store_def addRoute_def scenario_base_def fragment1_def
      fragment2_def base_with_def listener_1_def concat_routes_def mergeCluster_def)
next
  show "final_routes (build (new_Compiler scenario_base [fragment1, fragment2])) =
     Some [Some \<lparr>match_prefix = ''/health'', route_cluster = None\<rparr>,
           Some \<lparr>match_prefix = ''/v1'', route_cluster = None\<rparr>,
           Some \<lparr>match_prefix = ''/v2'', route_cluster = None\<rparr>]"
    by (simp add: final_routes_def target_routes_def first_virtual_host_def build_def
      new_Compiler_def service_def mergeConfig_def mergeClusters_store_def addRoute_def
      scenario_base_def fragment1_def fragment2_def base_with_def listener_1_def
      concat_routes_def mergeCluster_def)
qed

theorem mergeCluster_replace_or_append_witness:
  "mergeCluster [\<lparr>name = ''existing_cluster'', type = None\<rparr>] \<lparr>name = ''svc1'', type = None\<rparr> =
     [\<lparr>name = ''existing_cluster'', type = None\<rparr>, \<lparr>name = ''svc1'', type = None\<rparr>] \<and>
   mergeCluster
       [\<lparr>name = ''existing_cluster'', type = None\<rparr>, \<lparr>name = ''svc1'', type = None\<rparr>]
       \<lparr>name = ''existing_cluster'', type = Some ''new''\<rparr> =
     [\<lparr>name = ''existing_cluster'', type = Some ''new''\<rparr>, \<lparr>name = ''svc1'', type = None\<rparr>] \<and>
   doc_clusters scenario_base = Some [\<lparr>name = ''existing_cluster'', type = None\<rparr>] \<and>
   route_merge_defined scenario_base \<and>
   (\<exists>cfg1. mergeClusters_store scenario_base [\<lparr>name = ''existing_cluster'', type = Some ''new''\<rparr>] =
        Inr cfg1 \<and>
      doc_clusters cfg1 = Some [\<lparr>name = ''existing_cluster'', type = Some ''new''\<rparr>]) \<and>
   final_clusters (mergeConfig fragment2 (new_Compiler scenario_base [])) =
     Some [\<lparr>name = ''existing_cluster'', type = Some ''new''\<rparr>]"
proof -
  let ?e = "\<lparr>name = ''existing_cluster'', type = None\<rparr>"
  let ?s = "\<lparr>name = ''svc1'', type = None\<rparr>"
  let ?n = "\<lparr>name = ''existing_cluster'', type = Some ''new''\<rparr>"
  let ?c = "new_Compiler scenario_base []"
  let ?r = "[\<lparr>match_prefix = ''/v2'', route_cluster = None\<rparr>]"
  note t1 = mergeCluster_replace_or_append[where cs = "[?e]" and n = ?s and c = ?c
      and cfg = scenario_base and ?cs0.0 = "[?e]" and ns = "[?n]" and rs = ?r]
  note t2 = mergeCluster_replace_or_append[where cs = "[?e, ?s]" and n = ?n and c = ?c
      and cfg = scenario_base and ?cs0.0 = "[?e]" and ns = "[?n]" and rs = ?r]
  have d: "doc_clusters scenario_base = Some [?e]"
    by (simp add: doc_clusters_def scenario_base_def base_with_def)
  have l: "route_merge_defined scenario_base"
    by (simp add: route_merge_defined_def first_virtual_host_def scenario_base_def
        base_with_def listener_1_def)
  have st: "store ?c = Some scenario_base" by (simp add: new_Compiler_def)
  have f: "fragment2 = service [?n] ?r" by (simp add: fragment2_def)
  have 1: "mergeCluster [?e] ?s = [?e, ?s]"
    using t1 by simp
  have "(\<exists>x\<in>set [?e, ?s]. name x = name ?n) \<longrightarrow>
      (\<exists>i<length [?e, ?s]. name ([?e, ?s] ! i) = name ?n \<and>
         (\<forall>j<i. name ([?e, ?s] ! j) \<noteq> name ?n) \<and>
         mergeCluster [?e, ?s] ?n = [?e, ?s][i := ?n])"
    using t2 by (rule_tac conjunct1[OF conjunct2])
  moreover have "\<exists>x\<in>set [?e, ?s]. name x = name ?n" by simp
  ultimately obtain i where i: "i < length [?e, ?s]" "name ([?e, ?s] ! i) = name ?n"
    "mergeCluster [?e, ?s] ?n = [?e, ?s][i := ?n]"
    by blast
  have "i = 0" using i(1,2) by (cases i) auto
  with i(3) have 2: "mergeCluster [?e, ?s] ?n = [?n, ?s]" by simp
  have "\<exists>cfg1. mergeClusters_store scenario_base [?n] = Inr cfg1 \<and>
      doc_clusters cfg1 = Some (foldl mergeCluster [?e] [?n])"
    using t1 st d by blast
  moreover have "foldl mergeCluster [?e] [?n] = [?n]" by (simp add: mergeCluster_def)
  ultimately have 3: "\<exists>cfg1. mergeClusters_store scenario_base [?n] = Inr cfg1 \<and>
      doc_clusters cfg1 = Some [?n]" by simp
  have "final_clusters (mergeConfig (service [?n] ?r) ?c) = Some (foldl mergeCluster [?e] [?n])"
    using t1 st d l by blast
  then have 4: "final_clusters (mergeConfig fragment2 ?c) = Some [?n]"
    by (simp add: f mergeCluster_def)
  from 1 2 d l 3 4 show ?thesis by (intro conjI)
qed

text \<open>
  Claim C4 holds for every level of the path but \<^verbatim>\<open>listeners\<close>: when \<^verbatim>\<open>listeners\<close> is
  present, an unresolved path makes \<^verbatim>\<open>addRoute\<close> return the compiler as it is (lemma
  \<open>addRoute_unresolved\<close>). On a base document without \<^verbatim>\<open>listeners\<close> the test
  \<^verbatim>\<open>this.store.static_resources.listeners.length > 0\<close> reads a property of
  \<^verbatim>\<open>undefined\<close>, and merging a fragment throws a \<^verbatim>\<open>TypeError\<close>.
\<close>

theorem addRoute_missing_listeners_throws:
  "addRoute (Some [\<lparr>match_prefix = ''/test'', route_cluster = Some ''test_cluster''\<rparr>])
     (new_Compiler (base_with None []) []) = Inl TypeError \<and>
   build (new_Compiler (base_with None [])
      [service [] [\<lparr>match_prefix = ''/test'', route_cluster = Some ''test_cluster''\<rparr>]]) =
     Inl TypeError"
  by (simp add: build_def new_Compiler_def service_def mergeConfig_def mergeClusters_store_def
      addRoute_def base_with_def)

text \<open>
  Claim C9, as stated, fails for a fragment whose \<^verbatim>\<open>routes\<close> field alone is absent:
  \<^verbatim>\<open>routes.concat(undefined)\<close> does not throw, it appends \<^verbatim>\<open>undefined\<close> to the route
  list, and \<^verbatim>\<open>build\<close> returns.
\<close>

theorem absent_routes_do_not_throw:
  "build (new_Compiler mockBaseConfig [\<lparr>sc_clusters = Some [], sc_routes = None\<rparr>]) =
     Inr \<lparr>serviceConfigs = [\<lparr>sc_clusters = Some [], sc_routes = None\<rparr>],
          store = Some (base_with (Some [listener_1 [Some health, None]])
                    [\<lparr>name = ''existing_cluster'', type = Some ''LOGICAL_DNS''\<rparr>])\<rparr>"
  by (simp add: build_def new_Compiler_def mergeConfig_def mergeClusters_store_def addRoute_def
      mockBaseConfig_def base_with_def listener_1_def concat_routes_def)

text \<open>
  Claim C9, amended: a fragment whose \<^verbatim>\<open>clusters\<close> field is absent makes \<^verbatim>\<open>mergeConfig\<close>
  throw a \<^verbatim>\<open>TypeError\<close> on a non-null store, and \<^verbatim>\<open>build\<close> passes the exception on to
  its caller wherever the fragment stands in the list; a fragment with empty cluster and
  route lists is merged without error and leaves the compiler, and so the document,
  unchanged, when the route merge is defined on the document: \<^verbatim>\<open>static_resources\<close> and
  \<^verbatim>\<open>listeners\<close> are present and the first virtual host, when the path resolves, has its
  \<^verbatim>\<open>routes\<close>.
\<close>

theorem absent_clusters_throw:
  "(s \<in> set ss \<and> sc_clusters s = None \<longrightarrow> build (new_Compiler configBase ss) = Inl TypeError) \<and>
   (store c \<noteq> None \<and> sc_clusters s = None \<longrightarrow> mergeConfig s c = Inl TypeError) \<and>
   (store c = Some cfg \<and> route_merge_defined cfg \<longrightarrow>
      mergeConfig (service [] []) c = Inr c)"
proof (intro conjI impI)
  assume "s \<in> set ss \<and> sc_clusters s = None"
  then have "build_loop ss (new_Compiler configBase ss) = Inl TypeError"
    by (intro build_loop_absent_clusters[of s]) (simp_all add: new_Compiler_def)
  then show "build (new_Compiler configBase ss) = Inl TypeError"
    by (simp add: build_def new_Compiler_def)
next
  assume "store c \<noteq> None \<and> sc_clusters s = None"
  then show "mergeConfig s c = Inl TypeError"
    by (auto simp: mergeConfig_def)
next
  assume a: "store c = Some cfg \<and> route_merge_defined cfg"
  then have "c\<lparr>store := Some cfg\<rparr> = c" by (cases c) simp
  then show "mergeConfig (service [] []) c = Inr c"
    using a by (simp add: mergeConfig_def mergeClusters_store_def service_def addRoute_empty)
qed

theorem absent_clusters_throw_witness:
  "route_merge_defined mockBaseConfig \<and>
   build (new_Compiler mockBaseConfig [\<lparr>sc_clusters = None, sc_routes = None\<rparr>]) = Inl TypeError \<and>
   mergeConfig \<lparr>sc_clusters = None, sc_routes = None\<rparr> (new_Compiler mockBaseConfig []) =
     Inl TypeError \<and>
   mergeConfig (service [] []) (new_Compiler mockBaseConfig []) =
     Inr (new_Compiler mockBaseConfig [])"
proof -
  have l: "route_merge_defined mockBaseConfig"
    by (simp add: route_merge_defined_def first_virtual_host_def mockBaseConfig_def
        base_with_def listener_1_def)
  show ?thesis
    using l absent_clusters_throw[where s = "\<lparr>sc_clusters = None, sc_routes = None\<rparr>"
      and ss = "[\<lparr>sc_clusters = None, sc_routes = None\<rparr>]" and configBase = mockBaseConfig
      and c = "new_Compiler mockBaseConfig []" and cfg = mockBaseConfig]
    by (simp add: new_Compiler_def)
qed

text \<open>
  Claim C10: when the cluster list has the name of the new cluster at the indices \<open>i\<close>
  and \<open>j\<close>, \<open>i < j\<close>, and \<open>i\<close> is the first such index, merging the one-cluster fragment
  replaces the entry at \<open>i\<close> only; the entry at \<open>j\<close> stays, and the merged list still has
  two entries of that name. This is the cluster list \<^verbatim>\<open>build\<close> ends with when the list is
  that of the base document and the route merge is defined on it.
\<close>

theorem duplicate_name_first_occurrence_replaced:
  assumes "i < j" "j < length cs" "name (cs ! i) = name n" "name (cs ! j) = name n"
    and "\<forall>k<i. name (cs ! k) \<noteq> name n"
  shows "mergeClusters cs [n] = cs[i := n] \<and> mergeClusters cs [n] ! j = cs ! j \<and>
         \<not> distinct (map name (mergeClusters cs [n])) \<and>
         (doc_clusters configBase = Some cs \<and> route_merge_defined configBase \<longrightarrow>
            final_clusters (build (new_Compiler configBase [service [n] rs])) = Some (cs[i := n]))"
proof -
  have i: "i < length cs" using assms(1,2) by simp
  have m: "mergeClusters cs [n] = cs[i := n]"
    using mergeCluster_at[OF i assms(3,5)] by simp
  have j: "cs[i := n] ! j = cs ! j" using assms(1) by simp
  have "map name (cs[i := n]) ! i = map name (cs[i := n]) ! j"
    using i assms(1,2,3,4) by simp
  moreover have "i < length (map name (cs[i := n]))" "j < length (map name (cs[i := n]))"
    using i assms(2) by simp_all
  ultimately have d: "\<not> distinct (map name (cs[i := n]))"
    using assms(1) nth_eq_iff_index_eq[of "map name (cs[i := n])" i j] by auto
  have b: "final_clusters (build (new_Compiler configBase [service [n] rs])) = Some (cs[i := n])"
    if "doc_clusters configBase = Some cs" "route_merge_defined configBase"
  proof -
    have h: "doc_clusters configBase \<noteq> None \<or> concat (map fst [([n], rs)]) = []"
      using that(1) by simp
    from build_services[OF that(2) h] that(1) m
    show ?thesis by (auto simp: final_clusters_def)
  qed
  from m j d b show ?thesis by simp
qed

theorem duplicate_name_first_occurrence_replaced_witness:
  "mergeClusters [\<lparr>name = ''a'', type = Some ''first''\<rparr>, \<lparr>name = ''a'', type = Some ''second''\<rparr>]
       [\<lparr>name = ''a'', type = Some ''new''\<rparr>] =
     [\<lparr>name = ''a'', type = Some ''new''\<rparr>, \<lparr>name = ''a'', type = Some ''second''\<rparr>] \<and>
   final_clusters (build (new_Compiler
      (base_with (Some [])
         [\<lparr>name = ''a'', type = Some ''first''\<rparr>, \<lparr>name = ''a'', type = Some ''second''\<rparr>])
      [service [\<lparr>name = ''a'', type = Some ''new''\<rparr>] []])) =
     Some [\<lparr>name = ''a'', type = Some ''new''\<rparr>, \<lparr>name = ''a'', type = Some ''second''\<rparr>]"
  using duplicate_name_first_occurrence_replaced[of 0 1 "[\<lparr>name = ''a'', type = Some ''first''\<rparr>, \<lparr>name = ''a'', type = Some ''second''\<rparr>]"
     "\<lparr>name = ''a'', type = Some ''new''\<rparr>"
     "base_with (Some [])
         [\<lparr>name = ''a'', type = Some ''first''\<rparr>, \<lparr>name = ''a'', type = Some ''second''\<rparr>]" "[]"]
  by (simp add: base_with_def doc_clusters_def route_merge_defined_def first_virtual_host_def)

section \<open>Properties of discovery\<close>

lemma str_includes_iff: "str_includes s sub = (\<exists>a b. s = a @ sub @ b)"
proof (induction s)
  case Nil
  then show ?case by auto
next
  case (Cons c cs)
  have "(take (length sub) (c # cs) = sub) = (\<exists>b. c # cs = sub @ b)"
    by (metis append_eq_conv_conj)
  moreover have "(\<exists>a b. c # cs = a @ sub @ b) = ((\<exists>b. c # cs = sub @ b) \<or> (\<exists>a b. cs = a @ sub @ b))"
    by (auto simp: Cons_eq_append_conv)
  ultimately show ?case using Cons.IH by simp
qed

lemma sortContents_files:
  "sortContents p dirPath its acc = Some cont \<Longrightarrow>
     files cont = files acc @ filter (is_file p dirPath) its"
  by (induction its arbitrary: acc) (auto simp: is_file_def split: option.splits if_splits)

lemma listDirContents_files:
  "readdirSync p dirPath = Some names \<Longrightarrow> listDirContents p dirPath = Some cont \<Longrightarrow>
     files cont = filter (is_file p dirPath) names"
  by (auto simp: listDirContents_def dest: sortContents_files)

lemma getRoutes_loop_concat:
  "getRoutes_loop p folderPath fs acc =
     acc @ concat (map (\<lambda>f. readRouteYaml p (join p folderPath f))
                    (filter (\<lambda>f. str_includes f ''.yaml'') fs))"
  by (induction fs arbitrary: acc) auto

lemma getClusters_loop_concat:
  "getClusters_loop p folderPath fs acc =
     acc @ concat (map (\<lambda>f. readClusterYaml p (join p folderPath f))
                    (filter (\<lambda>f. str_includes f ''.yaml'') fs))"
  by (induction fs arbitrary: acc) auto

lemma collect_loop_concat:
  "collect_loop p d fps acc =
     acc @ concat (map (\<lambda>fp. case findServiceConfigs p d fp of None \<Rightarrow> [] | Some s \<Rightarrow> [s]) fps)"
  by (induction fps arbitrary: acc) (auto split: option.splits)

lemma read_yaml_unreadable:
  "readFileSync p path = None \<or> (\<exists>s. readFileSync p path = Some s \<and> load p s = None) \<Longrightarrow>
     read_yaml p path = YNull"
  by (auto simp: read_yaml_def)

lemma findServiceConfigs_folderPaths [simp]:
  "findServiceConfigs p (d\<lparr>folderPaths := fps\<rparr>) fp = findServiceConfigs p d fp"
  by (simp add: findServiceConfigs_def cong: option.case_cong)

lemma readRouteYaml_invalid: "\<not> valid_routes_file p path \<Longrightarrow> readRouteYaml p path = []"
  by (auto simp: valid_routes_file_def readRouteYaml_def Let_def split: option.splits yaml.splits)

lemma readClusterYaml_invalid: "\<not> valid_clusters_file p path \<Longrightarrow> readClusterYaml p path = []"
  by (auto simp: valid_clusters_file_def readClusterYaml_def Let_def split: option.splits yaml.splits)

lemma get_field_truthy: "get_field y k = Some v \<Longrightarrow> truthy y"
  by (cases y) auto

lemma readRouteYaml_valid:
  "get_field (read_yaml p path) ''routes'' = Some (YSeq rs) \<Longrightarrow>
     readRouteYaml p path = map (asRoute p) rs"
  by (simp add: readRouteYaml_def Let_def get_field_truthy)

lemma readClusterYaml_valid:
  "get_field (read_yaml p path) ''clusters'' = Some (YSeq cs) \<Longrightarrow>
     readClusterYaml p path = map (asCluster p) cs"
  by (simp add: readClusterYaml_def Let_def get_field_truthy)

lemma concat_map_filter_nonempty:
  "(\<And>x. x \<in> set xs \<Longrightarrow> \<not> Q x \<Longrightarrow> f x = []) \<Longrightarrow>
     concat (map f (filter P xs)) = concat (map f (filter (\<lambda>x. P x \<and> Q x) xs))"
  by (induction xs) auto

lemma ends_in_str_includes: "ends_in s suffix \<Longrightarrow> str_includes s suffix"
proof -
  assume "ends_in s suffix"
  then have "drop (length s - length suffix) s = suffix" by (simp add: ends_in_def)
  then have "s = take (length s - length suffix) s @ suffix @ []"
    by (metis append_Nil2 append_take_drop_id)
  then show ?thesis unfolding str_includes_iff by blast
qed

lemma find_eq_member: "n \<in> set xs \<Longrightarrow> find (\<lambda>f. f = n) xs = Some n"
  by (induction xs) auto

lemma findServiceConfigs_found:
  assumes "listDirContents p fp = Some cont"
    and "configFolderName d \<in> set (folders cont)"
    and "configFolderName d \<noteq> []"
  shows "findServiceConfigs p d fp =
     (if getRoutes p (routes_folder p d fp) = [] \<and> getClusters p (clusters_folder p d fp) = []
      then None
      else Some (service (getClusters p (clusters_folder p d fp)) (getRoutes p (routes_folder p d fp))))"
  using assms find_eq_member[OF assms(2)]
  by (auto simp: findServiceConfigs_def Let_def routes_folder_def clusters_folder_def)

lemma getRoutes_valid_files:
  "listDirContents p folder = Some cont \<Longrightarrow>
     getRoutes p folder =
       concat (map (\<lambda>f. readRouteYaml p (join p folder f))
         (filter (\<lambda>f. str_includes f ''.yaml'' \<and> valid_routes_file p (join p folder f))
            (files cont)))"
proof -
  assume l: "listDirContents p folder = Some cont"
  have "concat (map (\<lambda>f. readRouteYaml p (join p folder f))
          (filter (\<lambda>f. str_includes f ''.yaml'') (files cont))) =
        concat (map (\<lambda>f. readRouteYaml p (join p folder f))
          (filter (\<lambda>f. str_includes f ''.yaml'' \<and> valid_routes_file p (join p folder f))
             (files cont)))"
    by (rule concat_map_filter_nonempty) (rule readRouteYaml_invalid)
  then show ?thesis using l by (simp add: getRoutes_def getRoutes_loop_concat)
qed

lemma getClusters_valid_files:
  "listDirContents p folder = Some cont \<Longrightarrow>
     getClusters p folder =
       concat (map (\<lambda>f. readClusterYaml p (join p folder f))
         (filter (\<lambda>f. str_includes f ''.yaml'' \<and> valid_clusters_file p (join p folder f))
            (files cont)))"
proof -
  assume l: "listDirContents p folder = Some cont"
  have "concat (map (\<lambda>f. readClusterYaml p (join p folder f))
          (filter (\<lambda>f. str_includes f ''.yaml'') (files cont))) =
        concat (map (\<lambda>f. readClusterYaml p (join p folder f))
          (filter (\<lambda>f. str_includes f ''.yaml'' \<and> valid_clusters_file p (join p folder f))
             (files cont)))"
    by (rule concat_map_filter_nonempty) (rule readClusterYaml_invalid)
  then show ?thesis using l by (simp add: getClusters_def getClusters_loop_concat)
qed

lemma filter_yaml_names:
  "\<forall>f\<in>set fs. ends_in f ''.yaml'' \<Longrightarrow>
     filter (\<lambda>f. str_includes f ''.yaml'' \<and> Q f) fs = filter Q fs"
  by (rule filter_cong) (auto dest: ends_in_str_includes)

lemma findServiceConfigs_in_collect:
  "fp \<in> set (folderPaths d) \<Longrightarrow> findServiceConfigs p d fp = Some s \<Longrightarrow> s \<in> set (collect p d)"
  by (force simp: collect_def collect_loop_concat)

lemma getRoutes_listed_files:
  "getRoutes p folder =
     concat (map (\<lambda>f. readRouteYaml p (join p folder f))
       (filter (\<lambda>f. str_includes f ''.yaml'' \<and> valid_routes_file p (join p folder f))
          (listed_files p folder)))"
proof (cases "listDirContents p folder")
  case None
  then show ?thesis by (simp add: getRoutes_def listed_files_def)
next
  case (Some cont)
  then show ?thesis using getRoutes_valid_files[OF Some] by (simp add: listed_files_def)
qed

lemma getClusters_listed_files:
  "getClusters p folder =
     concat (map (\<lambda>f. readClusterYaml p (join p folder f))
       (filter (\<lambda>f. str_includes f ''.yaml'' \<and> valid_clusters_file p (join p folder f))
          (listed_files p folder)))"
proof (cases "listDirContents p folder")
  case None
  then show ?thesis by (simp add: getClusters_def listed_files_def)
next
  case (Some cont)
  then show ?thesis using getClusters_valid_files[OF Some] by (simp add: listed_files_def)
qed

section \<open>The claims about discovery and the plugin\<close>

text \<open>
  Claim C5, as stated, fails in its second half: \<^verbatim>\<open>execute\<close> calls \<^verbatim>\<open>collect\<close> before
  \<^verbatim>\<open>collectBase\<close>. On the example file system, which has no base file, the run ends
  with the error of \<^verbatim>\<open>collectBase\<close>, and by then the fragments of \<^verbatim>\<open>svc1\<close> and
  \<^verbatim>\<open>svc4\<close> have been collected.
\<close>

theorem collect_runs_before_missing_base:
  "execute example_platform example_request =
  (ErrorResult (Error ''base envoy config not found at base.yaml''),
   [CollectCall [service [\<lparr>name = ''c1'', type = None\<rparr>]
               [\<lparr>match_prefix = ''/a'', route_cluster = None\<rparr>, \<lparr>match_prefix = ''/old'', route_cluster = None\<rparr>],
             service [] [\<lparr>match_prefix = ''/b'', route_cluster = None\<rparr>]],
    CollectBaseCall])"
  by code_simp

text \<open>
  Claim C5, amended: when the base file cannot be read or does not parse,
  \<^verbatim>\<open>collectBase\<close> throws the error \<^verbatim>\<open>base envoy config not found at\<close> followed by the
  path, and the run is aborted: \<^verbatim>\<open>execute\<close> answers with that error after the two calls
  \<^verbatim>\<open>collect\<close> and \<^verbatim>\<open>collectBase\<close>, so nothing is built or written. The fragments have
  been collected before, and are dropped.
\<close>

theorem missing_base_aborts_run:
  "((readFileSync p (baseConfigPath d) = None \<or>
     (\<exists>s. readFileSync p (baseConfigPath d) = Some s \<and> load p s = None)) \<longrightarrow>
      collectBase p d = Inl (Error (''base envoy config not found at '' @ baseConfigPath d))) \<and>
   ((readFileSync p (base (request_options request)) = None \<or>
     (\<exists>s. readFileSync p (base (request_options request)) = Some s \<and> load p s = None)) \<longrightarrow>
      execute p request =
        (ErrorResult (Error (''base envoy config not found at '' @ base (request_options request))),
         [CollectCall (collect p (new_ConfigDiscover (items (request_options request))
              (base (request_options request)) (folderName (request_options request)))),
          CollectBaseCall]))"
proof (intro conjI impI)
  assume "readFileSync p (baseConfigPath d) = None \<or>
     (\<exists>s. readFileSync p (baseConfigPath d) = Some s \<and> load p s = None)"
  then have "read_yaml p (baseConfigPath d) = YNull" by (rule read_yaml_unreadable)
  then show "collectBase p d = Inl (Error (''base envoy config not found at '' @ baseConfigPath d))"
    by (simp add: collectBase_def)
next
  let ?o = "request_options request"
  let ?d = "new_ConfigDiscover (items ?o) (base ?o) (folderName ?o)"
  assume "readFileSync p (base ?o) = None \<or>
     (\<exists>s. readFileSync p (base ?o) = Some s \<and> load p s = None)"
  then have "read_yaml p (base ?o) = YNull" by (rule read_yaml_unreadable)
  then have "collectBase p ?d = Inl (Error (''base envoy config not found at '' @ base ?o))"
    by (simp add: collectBase_def new_ConfigDiscover_def)
  then show "execute p request =
        (ErrorResult (Error (''base envoy config not found at '' @ base ?o)),
         [CollectCall (collect p ?d), CollectBaseCall])"
    by (simp add: execute_def Let_def)
qed

theorem missing_base_aborts_run_witness:
  "readFileSync example_platform (baseConfigPath example_discovery) = None \<and>
   collectBase example_platform example_discovery =
     Inl (Error ''base envoy config not found at base.yaml'') \<and>
   base (request_options example_request) = ''base.yaml'' \<and>
   fst (execute example_platform example_request) =
     ErrorResult (Error ''base envoy config not found at base.yaml'')"
proof -
  let ?p = example_platform
  have o: "base (request_options example_request) = ''base.yaml''" by code_simp
  have b: "baseConfigPath example_discovery = ''base.yaml''" by code_simp
  have r: "readFileSync ?p ''base.yaml'' = None" by code_simp
  have c: "collectBase ?p example_discovery = Inl (Error ''base envoy config not found at base.yaml'')"
    using missing_base_aborts_run[of ?p example_discovery example_request] r b by simp
  have e: "fst (execute ?p example_request) = ErrorResult (Error ''base envoy config not found at base.yaml'')"
    using missing_base_aborts_run[of ?p example_discovery example_request] r o by simp
  from r b c o e show ?thesis by simp
qed

text \<open>
  Claim C6: a service directory whose listing fails, or whose folders do not include the
  configured name, gives no fragment; \<^verbatim>\<open>collect\<close> is the concatenation, in input order,
  of the fragments of the directories that give one, so a skipped directory between two
  runs of directories leaves the fragments of both runs, in order. Nothing throws: the
  functions are total and every exception of the platform is a \<open>None\<close> that they handle.
\<close>

theorem skipped_services_keep_order:
  "(listDirContents p fp = None \<longrightarrow> findServiceConfigs p d fp = None) \<and>
   (\<forall>cont. listDirContents p fp = Some cont \<and> configFolderName d \<notin> set (folders cont) \<longrightarrow>
      findServiceConfigs p d fp = None) \<and>
   collect p d =
     concat (map (\<lambda>fp. case findServiceConfigs p d fp of None \<Rightarrow> [] | Some s \<Rightarrow> [s])
              (folderPaths d)) \<and>
   (findServiceConfigs p d fp = None \<longrightarrow>
      collect p (d\<lparr>folderPaths := before @ fp # after\<rparr>) =
        collect p (d\<lparr>folderPaths := before\<rparr>) @ collect p (d\<lparr>folderPaths := after\<rparr>))"
proof (intro conjI impI allI)
  assume "listDirContents p fp = None"
  then show "findServiceConfigs p d fp = None" by (simp add: findServiceConfigs_def)
next
  fix cont
  assume a: "listDirContents p fp = Some cont \<and> configFolderName d \<notin> set (folders cont)"
  then have "find (\<lambda>f. f = configFolderName d) (folders cont) = None"
    by (auto simp: find_None_iff)
  with a show "findServiceConfigs p d fp = None" by (simp add: findServiceConfigs_def)
next
  show "collect p d =
     concat (map (\<lambda>fp. case findServiceConfigs p d fp of None \<Rightarrow> [] | Some s \<Rightarrow> [s])
              (folderPaths d))"
    by (simp add: collect_def collect_loop_concat)
next
  assume "findServiceConfigs p d fp = None"
  then show "collect p (d\<lparr>folderPaths := before @ fp # after\<rparr>) =
        collect p (d\<lparr>folderPaths := before\<rparr>) @ collect p (d\<lparr>folderPaths := after\<rparr>)"
    by (simp add: collect_def collect_loop_concat)
qed

theorem skipped_services_keep_order_witness:
  "listDirContents example_platform ''svc3'' = None \<and>
   findServiceConfigs example_platform example_discovery ''svc3'' = None \<and>
   listDirContents example_platform ''svc2'' = Some \<lparr>folders = [''src''], files = []\<rparr> \<and>
   findServiceConfigs example_platform example_discovery ''svc2'' = None \<and>
   collect example_platform example_discovery =
     [service [\<lparr>name = ''c1'', type = None\<rparr>]
        [\<lparr>match_prefix = ''/a'', route_cluster = None\<rparr>,
         \<lparr>match_prefix = ''/old'', route_cluster = None\<rparr>],
      service [] [\<lparr>match_prefix = ''/b'', route_cluster = None\<rparr>]] \<and>
   collect example_platform (example_discovery\<lparr>folderPaths := [''svc1''] @ ''svc3'' # [''svc4'']\<rparr>) =
     collect example_platform (example_discovery\<lparr>folderPaths := [''svc1'']\<rparr>) @
     collect example_platform (example_discovery\<lparr>folderPaths := [''svc4'']\<rparr>)"
proof -
  let ?p = example_platform and ?d = example_discovery
  have l3: "listDirContents ?p ''svc3'' = None" by code_simp
  have l2: "listDirContents ?p ''svc2'' = Some \<lparr>folders = [''src''], files = []\<rparr>" by code_simp
  have n2: "configFolderName ?d \<notin> set (folders \<lparr>folders = [''src''], files = []\<rparr>)" by code_simp
  have f3: "findServiceConfigs ?p ?d ''svc3'' = None"
    using skipped_services_keep_order[of ?p "''svc3''" ?d "[''svc1'']" "[''svc4'']"] l3 by blast
  have f2: "findServiceConfigs ?p ?d ''svc2'' = None"
    using skipped_services_keep_order[of ?p "''svc2''" ?d "[''svc1'']" "[''svc4'']"] l2 n2 by blast
  have s: "collect ?p (?d\<lparr>folderPaths := [''svc1''] @ ''svc3'' # [''svc4'']\<rparr>) =
     collect ?p (?d\<lparr>folderPaths := [''svc1'']\<rparr>) @ collect ?p (?d\<lparr>folderPaths := [''svc4'']\<rparr>)"
    using skipped_services_keep_order[of ?p "''svc3''" ?d "[''svc1'']" "[''svc4'']"] f3 by blast
  have c: "collect ?p ?d =
     [service [\<lparr>name = ''c1'', type = None\<rparr>]
        [\<lparr>match_prefix = ''/a'', route_cluster = None\<rparr>,
         \<lparr>match_prefix = ''/old'', route_cluster = None\<rparr>],
      service [] [\<lparr>match_prefix = ''/b'', route_cluster = None\<rparr>]]"
    by code_simp
  from l3 f3 l2 f2 c s show ?thesis by (intro conjI)
qed

text \<open>
  Claim C7: a file that cannot be read or parsed contributes no route and no cluster; so
  does a file whose document has no \<^verbatim>\<open>routes\<close> (no \<^verbatim>\<open>clusters\<close>) array, which is what
  a wrong shape means to the code; a file that has the array contributes its entries.
  The routes (clusters) of a folder are exactly the entries of its valid files among
  those read, in listing order: a bad file does not stop the scan. The fragment that
  \<^verbatim>\<open>findServiceConfigs\<close> builds for a service directory with the configuration folder
  is made of what \<^verbatim>\<open>getRoutes\<close> and \<^verbatim>\<open>getClusters\<close> return for its two folders, and
  there is none when both are empty. So, when the files of the two folders are all named
  \<^verbatim>\<open>.yaml\<close>, the fragment holds exactly the entries of the valid files of the routes
  folder and those of the valid files of the clusters folder, and it is among the
  fragments \<^verbatim>\<open>collect\<close> returns when the directory is one of those asked for. Nothing
  throws: the functions are total.
\<close>

theorem malformed_files_contribute_nothing:
  "((readFileSync p path = None \<or> (\<exists>s. readFileSync p path = Some s \<and> load p s = None)) \<longrightarrow>
      readRouteYaml p path = [] \<and> readClusterYaml p path = []) \<and>
   ((\<forall>rs. get_field (read_yaml p path) ''routes'' \<noteq> Some (YSeq rs)) \<longrightarrow>
      readRouteYaml p path = []) \<and>
   ((\<forall>cs. get_field (read_yaml p path) ''clusters'' \<noteq> Some (YSeq cs)) \<longrightarrow>
      readClusterYaml p path = []) \<and>
   (\<forall>rs. get_field (read_yaml p path) ''routes'' = Some (YSeq rs) \<longrightarrow>
      readRouteYaml p path = map (asRoute p) rs) \<and>
   (\<forall>cs. get_field (read_yaml p path) ''clusters'' = Some (YSeq cs) \<longrightarrow>
      readClusterYaml p path = map (asCluster p) cs) \<and>
   (\<forall>cont. listDirContents p folder = Some cont \<longrightarrow>
      getRoutes p folder =
        concat (map (\<lambda>f. readRouteYaml p (join p folder f))
          (filter (\<lambda>f. str_includes f ''.yaml'' \<and> valid_routes_file p (join p folder f))
             (files cont))) \<and>
      getClusters p folder =
        concat (map (\<lambda>f. readClusterYaml p (join p folder f))
          (filter (\<lambda>f. str_includes f ''.yaml'' \<and> valid_clusters_file p (join p folder f))
             (files cont)))) \<and>
   (\<forall>cont. listDirContents p fp = Some cont \<and> configFolderName d \<in> set (folders cont) \<and>
        configFolderName d \<noteq> [] \<longrightarrow>
      findServiceConfigs p d fp =
        (if getRoutes p (routes_folder p d fp) = [] \<and> getClusters p (clusters_folder p d fp) = []
         then None
         else Some (service (getClusters p (clusters_folder p d fp))
                            (getRoutes p (routes_folder p d fp))))) \<and>
   (\<forall>cont. listDirContents p fp = Some cont \<and> configFolderName d \<in> set (folders cont) \<and>
        configFolderName d \<noteq> [] \<and>
        (\<forall>f\<in>set (listed_files p (routes_folder p d fp)). ends_in f ''.yaml'') \<and>
        (\<forall>f\<in>set (listed_files p (clusters_folder p d fp)). ends_in f ''.yaml'') \<longrightarrow>
      findServiceConfigs p d fp =
        (let rs = concat (map (\<lambda>f. readRouteYaml p (join p (routes_folder p d fp) f))
                    (filter (\<lambda>f. valid_routes_file p (join p (routes_folder p d fp) f))
                       (listed_files p (routes_folder p d fp))));
             cs = concat (map (\<lambda>f. readClusterYaml p (join p (clusters_folder p d fp) f))
                    (filter (\<lambda>f. valid_clusters_file p (join p (clusters_folder p d fp) f))
                       (listed_files p (clusters_folder p d fp))))
         in if rs = [] \<and> cs = [] then None else Some (service cs rs))) \<and>
   (fp \<in> set (folderPaths d) \<and> findServiceConfigs p d fp = Some fragment \<longrightarrow>
      fragment \<in> set (collect p d))"
proof (intro conjI impI allI)
  assume a: "readFileSync p path = None \<or> (\<exists>s. readFileSync p path = Some s \<and> load p s = None)"
  then have "read_yaml p path = YNull" by (rule read_yaml_unreadable)
  then show "readRouteYaml p path = []" "readClusterYaml p path = []"
    by (simp_all add: readRouteYaml_def readClusterYaml_def)
next
  assume "\<forall>rs. get_field (read_yaml p path) ''routes'' \<noteq> Some (YSeq rs)"
  then have "\<not> valid_routes_file p path"
    by (auto simp: valid_routes_file_def split: option.splits yaml.splits)
  then show "readRouteYaml p path = []" by (rule readRouteYaml_invalid)
next
  assume "\<forall>cs. get_field (read_yaml p path) ''clusters'' \<noteq> Some (YSeq cs)"
  then have "\<not> valid_clusters_file p path"
    by (auto simp: valid_clusters_file_def split: option.splits yaml.splits)
  then show "readClusterYaml p path = []" by (rule readClusterYaml_invalid)
next
  fix rs assume "get_field (read_yaml p path) ''routes'' = Some (YSeq rs)"
  then show "readRouteYaml p path = map (asRoute p) rs" by (rule readRouteYaml_valid)
next
  fix cs assume "get_field (read_yaml p path) ''clusters'' = Some (YSeq cs)"
  then show "readClusterYaml p path = map (asCluster p) cs" by (rule readClusterYaml_valid)
next
  fix cont assume "listDirContents p folder = Some cont"
  then show "getRoutes p folder =
        concat (map (\<lambda>f. readRouteYaml p (join p folder f))
          (filter (\<lambda>f. str_includes f ''.yaml'' \<and> valid_routes_file p (join p folder f))
             (files cont)))"
    by (rule getRoutes_valid_files)
next
  fix cont assume "listDirContents p folder = Some cont"
  then show "getClusters p folder =
        concat (map (\<lambda>f. readClusterYaml p (join p folder f))
          (filter (\<lambda>f. str_includes f ''.yaml'' \<and> valid_clusters_file p (join p folder f))
             (files cont)))"
    by (rule getClusters_valid_files)
next
  fix cont
  assume a: "listDirContents p fp = Some cont \<and> configFolderName d \<in> set (folders cont) \<and>
        configFolderName d \<noteq> []"
  then have "listDirContents p fp = Some cont" "configFolderName d \<in> set (folders cont)"
    "configFolderName d \<noteq> []" by simp_all
  then show "findServiceConfigs p d fp =
        (if getRoutes p (routes_folder p d fp) = [] \<and> getClusters p (clusters_folder p d fp) = []
         then None
         else Some (service (getClusters p (clusters_folder p d fp))
                            (getRoutes p (routes_folder p d fp))))"
    by (rule findServiceConfigs_found)
next
  fix cont
  let ?R = "routes_folder p d fp" and ?C = "clusters_folder p d fp"
  assume a: "listDirContents p fp = Some cont \<and> configFolderName d \<in> set (folders cont) \<and>
        configFolderName d \<noteq> [] \<and>
        (\<forall>f\<in>set (listed_files p ?R). ends_in f ''.yaml'') \<and>
        (\<forall>f\<in>set (listed_files p ?C). ends_in f ''.yaml'')"
  then have h: "listDirContents p fp = Some cont" "configFolderName d \<in> set (folders cont)"
    "configFolderName d \<noteq> []" by simp_all
  from a have r: "\<forall>f\<in>set (listed_files p ?R). ends_in f ''.yaml''"
    and c: "\<forall>f\<in>set (listed_files p ?C). ends_in f ''.yaml''" by simp_all
  have gr: "getRoutes p ?R =
      concat (map (\<lambda>f. readRouteYaml p (join p ?R f))
        (filter (\<lambda>f. valid_routes_file p (join p ?R f)) (listed_files p ?R)))"
    unfolding getRoutes_listed_files[of p ?R] filter_yaml_names[OF r] ..
  have gc: "getClusters p ?C =
      concat (map (\<lambda>f. readClusterYaml p (join p ?C f))
        (filter (\<lambda>f. valid_clusters_file p (join p ?C f)) (listed_files p ?C)))"
    unfolding getClusters_listed_files[of p ?C] filter_yaml_names[OF c] ..
  show "findServiceConfigs p d fp =
        (let rs = concat (map (\<lambda>f. readRouteYaml p (join p ?R f))
                    (filter (\<lambda>f. valid_routes_file p (join p ?R f)) (listed_files p ?R)));
             cs = concat (map (\<lambda>f. readClusterYaml p (join p ?C f))
                    (filter (\<lambda>f. valid_clusters_file p (join p ?C f)) (listed_files p ?C)))
         in if rs = [] \<and> cs = [] then None else Some (service cs rs))"
    unfolding Let_def findServiceConfigs_found[OF h] gr[symmetric] gc[symmetric] ..
next
  assume "fp \<in> set (folderPaths d) \<and> findServiceConfigs p d fp = Some fragment"
  then show "fragment \<in> set (collect p d)"
    by (auto intro: findServiceConfigs_in_collect)
qed

theorem malformed_files_contribute_nothing_witness:
  "readFileSync example_platform ''svc1/envoy/routes/bad.yaml'' = Some ''routes: [{'' \<and>
   load example_platform ''routes: [{'' = None \<and>
   readRouteYaml example_platform ''svc1/envoy/routes/bad.yaml'' = [] \<and>
   readClusterYaml example_platform ''svc1/envoy/routes/bad.yaml'' = [] \<and>
   get_field (read_yaml example_platform ''svc1/envoy/clusters/c.yaml'') ''routes'' = None \<and>
   readRouteYaml example_platform ''svc1/envoy/clusters/c.yaml'' = [] \<and>
   readRouteYaml example_platform ''svc1/envoy/routes/good.yaml'' =
     [\<lparr>match_prefix = ''/a'', route_cluster = None\<rparr>] \<and>
   getRoutes example_platform ''svc1/envoy/routes'' =
     readRouteYaml example_platform ''svc1/envoy/routes/good.yaml'' @
     readRouteYaml example_platform ''svc1/envoy/routes/old.yaml.bak'' \<and>
   listDirContents example_platform ''svc5'' = Some \<lparr>folders = [''envoy''], files = []\<rparr> \<and>
   listed_files example_platform ''svc5/envoy/routes'' =
     [''x.yaml'', ''broken.yaml'', ''shape.yaml'', ''y.yaml''] \<and>
   listed_files example_platform ''svc5/envoy/clusters'' = [''c.yaml'', ''empty.yaml''] \<and>
   filter (\<lambda>f. valid_routes_file example_platform (''svc5/envoy/routes/'' @ f))
     [''x.yaml'', ''broken.yaml'', ''shape.yaml'', ''y.yaml''] = [''x.yaml'', ''y.yaml''] \<and>
   findServiceConfigs example_platform example_discovery ''svc5'' =
     Some (service [\<lparr>name = ''c5'', type = None\<rparr>]
        [\<lparr>match_prefix = ''/x'', route_cluster = None\<rparr>,
         \<lparr>match_prefix = ''/y'', route_cluster = None\<rparr>]) \<and>
   findServiceConfigs example_platform example_discovery ''svc4'' =
     Some (service [] [\<lparr>match_prefix = ''/b'', route_cluster = None\<rparr>]) \<and>
   service [] [\<lparr>match_prefix = ''/b'', route_cluster = None\<rparr>] \<in>
     set (collect example_platform example_discovery)"
proof -
  let ?p = example_platform and ?d = example_discovery
  let ?bad = "''svc1/envoy/routes/bad.yaml''"
  let ?c = "''svc1/envoy/clusters/c.yaml''"
  let ?good = "''svc1/envoy/routes/good.yaml''"
  let ?folder = "''svc1/envoy/routes''"
  let ?cont = "\<lparr>folders = [], files = [''good.yaml'', ''bad.yaml'', ''notes.txt'', ''old.yaml.bak'']\<rparr>"
  let ?s4 = "service [] [\<lparr>match_prefix = ''/b'', route_cluster = None\<rparr>]"
  note t = malformed_files_contribute_nothing
  have r: "readFileSync ?p ?bad = Some ''routes: [{''" by code_simp
  have l: "load ?p ''routes: [{'' = None" by code_simp
  have b: "readRouteYaml ?p ?bad = [] \<and> readClusterYaml ?p ?bad = []"
    using t[where p = ?p and path = ?bad] r l by blast
  have g: "get_field (read_yaml ?p ?c) ''routes'' = None" by code_simp
  have w: "readRouteYaml ?p ?c = []"
    using t[where p = ?p and path = ?c] g by simp
  have v: "get_field (read_yaml ?p ?good) ''routes'' = Some (YSeq [route_yaml ''/a''])"
    by code_simp
  have "readRouteYaml ?p ?good = map (asRoute ?p) [route_yaml ''/a'']"
    using t[where p = ?p and path = ?good] v by blast
  moreover have "map (asRoute ?p) [route_yaml ''/a''] = [\<lparr>match_prefix = ''/a'', route_cluster = None\<rparr>]"
    by code_simp
  ultimately have gd: "readRouteYaml ?p ?good = [\<lparr>match_prefix = ''/a'', route_cluster = None\<rparr>]"
    by simp
  have ld: "listDirContents ?p ?folder = Some ?cont" by code_simp
  have "getRoutes ?p ?folder =
        concat (map (\<lambda>f. readRouteYaml ?p (join ?p ?folder f))
          (filter (\<lambda>f. str_includes f ''.yaml'' \<and> valid_routes_file ?p (join ?p ?folder f))
             (files ?cont)))"
    using t[where p = ?p and folder = ?folder] ld by blast
  moreover have "concat (map (\<lambda>f. readRouteYaml ?p (join ?p ?folder f))
          (filter (\<lambda>f. str_includes f ''.yaml'' \<and> valid_routes_file ?p (join ?p ?folder f))
             (files ?cont))) =
     readRouteYaml ?p ?good @ readRouteYaml ?p ''svc1/envoy/routes/old.yaml.bak''"
    by code_simp
  ultimately have f: "getRoutes ?p ?folder =
     readRouteYaml ?p ?good @ readRouteYaml ?p ''svc1/envoy/routes/old.yaml.bak''"
    by simp
  let ?c5 = "\<lparr>folders = [''envoy''], files = []\<rparr>"
  let ?R = "routes_folder ?p ?d ''svc5''" and ?C = "clusters_folder ?p ?d ''svc5''"
  have l5: "listDirContents ?p ''svc5'' = Some ?c5" by code_simp
  have n5: "configFolderName ?d \<in> set (folders ?c5)" "configFolderName ?d \<noteq> []"
    by code_simp+
  have lr: "listed_files ?p ''svc5/envoy/routes'' =
      [''x.yaml'', ''broken.yaml'', ''shape.yaml'', ''y.yaml'']" by code_simp
  have lc: "listed_files ?p ''svc5/envoy/clusters'' = [''c.yaml'', ''empty.yaml'']" by code_simp
  have R: "?R = ''svc5/envoy/routes''" and C: "?C = ''svc5/envoy/clusters''" by code_simp+
  have er: "\<forall>f\<in>set (listed_files ?p ?R). ends_in f ''.yaml''"
    unfolding R lr by (simp add: ends_in_def)
  have ec: "\<forall>f\<in>set (listed_files ?p ?C). ends_in f ''.yaml''"
    unfolding C lc by (simp add: ends_in_def)
  have vf: "filter (\<lambda>f. valid_routes_file ?p (''svc5/envoy/routes/'' @ f))
     [''x.yaml'', ''broken.yaml'', ''shape.yaml'', ''y.yaml''] = [''x.yaml'', ''y.yaml'']"
    by code_simp
  have "findServiceConfigs ?p ?d ''svc5'' =
        (let rs = concat (map (\<lambda>f. readRouteYaml ?p (join ?p ?R f))
                    (filter (\<lambda>f. valid_routes_file ?p (join ?p ?R f)) (listed_files ?p ?R)));
             cs = concat (map (\<lambda>f. readClusterYaml ?p (join ?p ?C f))
                    (filter (\<lambda>f. valid_clusters_file ?p (join ?p ?C f)) (listed_files ?p ?C)))
         in if rs = [] \<and> cs = [] then None else Some (service cs rs))"
    using t[where p = ?p and d = ?d and fp = "''svc5''"] l5 n5 er ec by blast
  moreover have "(let rs = concat (map (\<lambda>f. readRouteYaml ?p (join ?p ?R f))
                    (filter (\<lambda>f. valid_routes_file ?p (join ?p ?R f)) (listed_files ?p ?R)));
             cs = concat (map (\<lambda>f. readClusterYaml ?p (join ?p ?C f))
                    (filter (\<lambda>f. valid_clusters_file ?p (join ?p ?C f)) (listed_files ?p ?C)))
         in if rs = [] \<and> cs = [] then None else Some (service cs rs)) =
     Some (service [\<lparr>name = ''c5'', type = None\<rparr>]
        [\<lparr>match_prefix = ''/x'', route_cluster = None\<rparr>,
         \<lparr>match_prefix = ''/y'', route_cluster = None\<rparr>])"
    by code_simp
  ultimately have f5: "findServiceConfigs ?p ?d ''svc5'' =
     Some (service [\<lparr>name = ''c5'', type = None\<rparr>]
        [\<lparr>match_prefix = ''/x'', route_cluster = None\<rparr>,
         \<lparr>match_prefix = ''/y'', route_cluster = None\<rparr>])"
    by simp
  let ?c4 = "\<lparr>folders = [''envoy''], files = []\<rparr>"
  have l4: "listDirContents ?p ''svc4'' = Some ?c4" by code_simp
  have "findServiceConfigs ?p ?d ''svc4'' =
        (if getRoutes ?p (routes_folder ?p ?d ''svc4'') = [] \<and>
            getClusters ?p (clusters_folder ?p ?d ''svc4'') = []
         then None
         else Some (service (getClusters ?p (clusters_folder ?p ?d ''svc4''))
                            (getRoutes ?p (routes_folder ?p ?d ''svc4''))))"
    using t[where p = ?p and d = ?d and fp = "''svc4''"] l4 n5 by blast
  moreover have "(if getRoutes ?p (routes_folder ?p ?d ''svc4'') = [] \<and>
            getClusters ?p (clusters_folder ?p ?d ''svc4'') = []
         then None
         else Some (service (getClusters ?p (clusters_folder ?p ?d ''svc4''))
                            (getRoutes ?p (routes_folder ?p ?d ''svc4'')))) = Some ?s4"
    by code_simp
  ultimately have f4: "findServiceConfigs ?p ?d ''svc4'' = Some ?s4" by simp
  have "''svc4'' \<in> set (folderPaths ?d)" by code_simp
  with f4 have m4: "?s4 \<in> set (collect ?p ?d)"
    using t[where p = ?p and d = ?d and fp = "''svc4''" and fragment = ?s4] by blast
  from r l b g w gd f l5 lr lc vf f5 f4 m4 show ?thesis by (intro conjI) simp_all
qed

text \<open>
  Claim C8 is what the documentation of the code says: \<^verbatim>\<open>getRoutes\<close> and \<^verbatim>\<open>getClusters\<close>
  are documented to read "all YAML files" of the folder, and the user guide lists files
  named \<^verbatim>\<open>.yaml\<close>. The test in both loops is \<^verbatim>\<open>f.includes(".yaml")\<close>, which holds
  wherever \<^verbatim>\<open>.yaml\<close> occurs in the name. In the example, the backup file
  \<^verbatim>\<open>old.yaml.bak\<close> of \<^verbatim>\<open>svc1\<close>, whose name does not end in \<^verbatim>\<open>.yaml\<close>, is read; its
  route \<open>/old\<close> is in the result of \<^verbatim>\<open>getRoutes\<close>, in the fragment that
  \<^verbatim>\<open>findServiceConfigs\<close> builds for \<^verbatim>\<open>svc1\<close> and in what \<^verbatim>\<open>collect\<close> returns. The text
  file \<^verbatim>\<open>notes.txt\<close> is not read, and the order is that of the listing.
\<close>

theorem file_not_ending_in_yaml_is_read:
  "\<not> ends_in ''old.yaml.bak'' ''.yaml'' \<and>
   str_includes ''old.yaml.bak'' ''.yaml'' \<and>
   listed_files example_platform ''svc1/envoy/routes'' =
     [''good.yaml'', ''bad.yaml'', ''notes.txt'', ''old.yaml.bak''] \<and>
   readRouteYaml example_platform ''svc1/envoy/routes/old.yaml.bak'' =
     [\<lparr>match_prefix = ''/old'', route_cluster = None\<rparr>] \<and>
   getRoutes example_platform ''svc1/envoy/routes'' =
     [\<lparr>match_prefix = ''/a'', route_cluster = None\<rparr>,
      \<lparr>match_prefix = ''/old'', route_cluster = None\<rparr>] \<and>
   findServiceConfigs example_platform example_discovery ''svc1'' =
     Some (service [\<lparr>name = ''c1'', type = None\<rparr>]
        [\<lparr>match_prefix = ''/a'', route_cluster = None\<rparr>,
         \<lparr>match_prefix = ''/old'', route_cluster = None\<rparr>]) \<and>
   collect example_platform example_discovery =
     [service [\<lparr>name = ''c1'', type = None\<rparr>]
        [\<lparr>match_prefix = ''/a'', route_cluster = None\<rparr>,
         \<lparr>match_prefix = ''/old'', route_cluster = None\<rparr>],
      service [] [\<lparr>match_prefix = ''/b'', route_cluster = None\<rparr>]]"
  by code_simp

end
